theory Spec2Isabelle
  imports Complex_Main "HOL-Library.Word"
begin

section \<open>Dense matrices and the library operations the programs use\<close>

text \<open>
  An \<^verbatim>\<open>arma::Mat\<close> is a size and its elements. The datasets and the matrices of PCA
  whitening hold finite values, and \<^verbatim>\<open>double\<close> is modelled there by the exact reals
  (\<open>mat\<close>). Only the elements inside the size are meaningful, so matrices are compared
  with \<open>mat_eq\<close>. Vectors (\<^verbatim>\<open>arma::vec\<close>, \<^verbatim>\<open>arma::Row\<close>) are lists.
\<close>

record 'a Mat =
  n_rows :: nat
  n_cols :: nat
  elem :: "nat \<Rightarrow> nat \<Rightarrow> 'a"

type_synonym mat = "real Mat"

text \<open>
  The matrix that the NCA executable hands to the optimizer is computed with the
  subtraction and the division of IEEE 754, whose results can be infinite. There a
  \<^verbatim>\<open>double\<close> is a finite value, an infinity or NaN (\<open>dmat\<close> is a matrix of such values).
  An exact result becomes an infinity from the overflow threshold of the format on:
  \<open>2^1024 - 2^970\<close>, halfway between the largest finite \<^verbatim>\<open>double\<close> and \<open>2^1024\<close>. The
  rounding of a finite result is not modelled: it stays the exact value.
\<close>

datatype double = Finite real | PosInf | NegInf | NaN

instantiation double :: "{zero, one}"
begin

definition zero_double :: double where
  "zero_double = Finite 0"

definition one_double :: double where
  "one_double = Finite 1"

instance ..

end

type_synonym dmat = "double Mat"

definition is_nan :: "double \<Rightarrow> bool" where
  "is_nan d \<longleftrightarrow> d = NaN"

definition is_inf :: "double \<Rightarrow> bool" where
  "is_inf d \<longleftrightarrow> d = PosInf \<or> d = NegInf"

definition overflow_threshold :: real where
  "overflow_threshold = 2 ^ 1024 - 2 ^ 970"

definition round_double :: "real \<Rightarrow> double" where
  "round_double x =
     (if overflow_threshold \<le> x then PosInf
      else if x \<le> - overflow_threshold then NegInf
      else Finite x)"

text \<open>
  \<^verbatim>\<open>1.0 / r\<close> on a \<^verbatim>\<open>double\<close>: the inverse of an infinity is 0, that of NaN is NaN, and
  that of 0 is an infinity (with the sign of the zero, which the reals do not carry; a
  difference of equal values is \<open>+0\<close>).
\<close>

fun one_over :: "double \<Rightarrow> double" where
  "one_over (Finite v) = (if v = 0 then PosInf else round_double (1 / v))"
| "one_over PosInf = Finite 0"
| "one_over NegInf = Finite 0"
| "one_over NaN = NaN"

type_synonym size_t = "64 word"

datatype arma_error = IncompatibleDimensions | IndexOutOfBounds | EmptyObject | SingularMatrix

definition mat_eq :: "mat \<Rightarrow> mat \<Rightarrow> bool" where
  "mat_eq A B \<longleftrightarrow>
     n_rows A = n_rows B \<and> n_cols A = n_cols B \<and>
     (\<forall>i<n_rows A. \<forall>j<n_cols A. elem A i j = elem B i j)"

text \<open>A default-constructed \<^verbatim>\<open>arma::mat\<close> is the empty 0 x 0 matrix.\<close>

definition empty_mat :: "'a::zero Mat" where
  "empty_mat = \<lparr>n_rows = 0, n_cols = 0, elem = (\<lambda>i j. 0)\<rparr>"

text \<open>\<^verbatim>\<open>M.eye()\<close> without arguments keeps the size of \<open>M\<close> and overwrites its elements.\<close>

definition eye :: "'a::{zero,one} Mat \<Rightarrow> 'a Mat" where
  "eye M = M\<lparr>elem := (\<lambda>i j. if i = j then 1 else 0)\<rparr>"

text \<open>The \<open>n\<close> x \<open>n\<close> identity matrix.\<close>

definition identity :: "nat \<Rightarrow> mat" where
  "identity n = \<lparr>n_rows = n, n_cols = n, elem = (\<lambda>i j. if i = j then 1 else 0)\<rparr>"

definition diagmat :: "'a::zero list \<Rightarrow> 'a Mat" where
  "diagmat v =
     \<lparr>n_rows = length v, n_cols = length v, elem = (\<lambda>i j. if i = j then v ! i else 0)\<rparr>"

text \<open>
  \<^verbatim>\<open>M.shed_row(r)\<close> removes row \<open>r\<close>; the library rejects a row index outside the matrix.
\<close>

definition shed_row :: "mat \<Rightarrow> nat \<Rightarrow> arma_error + mat" where
  "shed_row M r =
     (if r < n_rows M
      then Inr \<lparr>n_rows = n_rows M - 1, n_cols = n_cols M,
                elem = (\<lambda>i j. elem M (if i < r then i else i + 1) j)\<rparr>
      else Inl IndexOutOfBounds)"

text \<open>
  \<^verbatim>\<open>arma::max(M, 1)\<close> and \<^verbatim>\<open>arma::min(M, 1)\<close>: the largest and smallest element of each
  row. A matrix with rows but no columns has no such column vector.
\<close>

definition max_dim1 :: "mat \<Rightarrow> arma_error + real list" where
  "max_dim1 M =
     (if n_cols M = 0 \<and> 0 < n_rows M then Inl EmptyObject
      else Inr (map (\<lambda>i. Max (elem M i ` {..<n_cols M})) [0..<n_rows M]))"

definition min_dim1 :: "mat \<Rightarrow> arma_error + real list" where
  "min_dim1 M =
     (if n_cols M = 0 \<and> 0 < n_rows M then Inl EmptyObject
      else Inr (map (\<lambda>i. Min (elem M i ` {..<n_cols M})) [0..<n_rows M]))"

text \<open>
  The conversion \<^verbatim>\<open>(size_t) x\<close> of a \<^verbatim>\<open>double\<close> truncates toward zero. Where the truncated
  value is not a \<^verbatim>\<open>size_t\<close>, C++ leaves the conversion undefined; the program does not check
  for it and runs on with what the conversion yields. The model takes the instructions of
  an x86-64 build: \<^verbatim>\<open>cvttsd2si\<close> converts to a signed 64-bit integer and yields
  \<open>2^63\<close> (the bit pattern called integer indefinite) outside its range; an operand from
  \<open>2^63\<close> on is converted after \<open>2^63\<close> is subtracted, and the top bit is flipped back.
  So \<open>-1\<close> becomes \<open>2^64 - 1\<close> and \<open>2^64\<close> becomes 0.
\<close>

definition trunc :: "real \<Rightarrow> int" where
  "trunc x = (if 0 \<le> x then \<lfloor>x\<rfloor> else \<lceil>x\<rceil>)"

definition cvttsd2si :: "real \<Rightarrow> 64 word" where
  "cvttsd2si x =
     (if - (2 ^ 63) \<le> trunc x \<and> trunc x < 2 ^ 63 then word_of_int (trunc x) else 2 ^ 63)"

definition size_t_of_double :: "real \<Rightarrow> size_t" where
  "size_t_of_double x = (if x < 2 ^ 63 then cvttsd2si x else cvttsd2si (x - 2 ^ 63) + 2 ^ 63)"

section \<open>The NCA executable (nca\_main.cpp)\<close>

text \<open>
  The command line as \<^verbatim>\<open>CLI\<close> holds it: which options were passed (\<^verbatim>\<open>CLI::HasParam\<close>) and
  the value of each option (\<^verbatim>\<open>CLI::GetParam\<close>, the declared default when not passed).
\<close>

record cli =
  passed :: "string list"
  input :: mat
  labels :: "size_t list"
  optimizer :: string
  max_iterations :: "32 word"
  tolerance :: real
  step_size :: real
  batch_size :: "32 word"
  num_basis :: "32 word"
  armijo_constant :: real
  wolfe :: real
  max_line_search_trials :: "32 word"
  min_step :: real
  max_step :: real
  seed :: "32 word"

definition HasParam :: "cli \<Rightarrow> string \<Rightarrow> bool" where
  "HasParam c name \<longleftrightarrow> name \<in> set (passed c)"

text \<open>The values of the \<^verbatim>\<open>PARAM_*\<close> declarations when only \<open>input\<close> is passed.\<close>

definition defaults :: "mat \<Rightarrow> cli" where
  "defaults m =
     \<lparr>passed = [''input''], input = m, labels = [], optimizer = ''sgd'',
      max_iterations = 500000, tolerance = 1 / 10 ^ 7, step_size = 1 / 100,
      batch_size = 50, num_basis = 5, armijo_constant = 1 / 10 ^ 4, wolfe = 9 / 10,
      max_line_search_trials = 50, min_step = 1 / 10 ^ 20, max_step = 10 ^ 20, seed = 0\<rparr>"

text \<open>The optimizer of the \<^verbatim>\<open>NCA\<close> object with the settings the program writes into it.\<close>

datatype nca_optimizer =
    SGD (StepSize: real) (MaxIterations: size_t) (Tolerance: real) (Shuffle: bool)
      (BatchSize: size_t)
  | L_BFGS (NumBasis: "32 word") (MaxIterations: size_t) (ArmijoConstant: real) (Wolfe: real)
      (MinGradientNorm: real) (MaxLineSearchTrials: "32 word") (MinStep: real) (MaxStep: real)

text \<open>
  What a run does, in program order: the seeding of the random generator, the log lines
  (the notice on an ignored option with the option's name and the reason), the call of
  \<^verbatim>\<open>LearnDistance\<close> on an \<^verbatim>\<open>NCA\<close> object (optimizer, dataset, labels, the matrix handed
  in) and the saved output.
\<close>

datatype event =
    RandomSeed size_t
  | IgnoredParam string string
  | Warn string
  | Info string
  | Fatal string
  | NCA_LearnDistance nca_optimizer mat "size_t list" dmat
  | SaveOutput dmat

text \<open>
  How a run ends: it returns, \<^verbatim>\<open>Log::Fatal\<close> aborts it, a library call rejects its
  arguments, or the optimizer never returns.
\<close>

datatype exit = Finished | FatalError | ArmaError arma_error | NoReturn

text \<open>
  Modelled from the spec: the optimization (\<^verbatim>\<open>nca.hpp\<close> and the optimizers, not among the
  sources). The spec's objective evaluator is a pure function of the transform, the point
  indices, the dataset and the labels, and an optimizer strategy runs from the initial
  transform with its settings, shuffling with the seeded generator. So \<^verbatim>\<open>LearnDistance\<close>
  is a parameter of the model: any function of the generator's seed, the optimizer with
  its settings, the dataset, the labels and the matrix handed in, which returns the
  learned matrix, or \<open>None\<close> when it does not return. \<^verbatim>\<open>data::NormalizeLabels\<close> is a
  parameter too, a function of the raw labels.
\<close>

type_synonym learner =
  "size_t \<Rightarrow> nca_optimizer \<Rightarrow> mat \<Rightarrow> size_t list \<Rightarrow> dmat \<Rightarrow> dmat option"

text \<open>
  Modelled from the spec: \<^verbatim>\<open>ReportIgnoredParam\<close> and \<^verbatim>\<open>RequireAtLeastOnePassed\<close> (the
  parameter checks of \<^verbatim>\<open>mlpack/core/util\<close>, not among the sources). An option that is
  passed and ignored gets a non-fatal notice naming it; the absence of any output
  request is flagged, not fatal.
\<close>

definition ReportIgnoredParam :: "cli \<Rightarrow> string \<Rightarrow> string \<Rightarrow> event list" where
  "ReportIgnoredParam c name reason = (if HasParam c name then [IgnoredParam name reason] else [])"

definition RequireAtLeastOnePassed :: "cli \<Rightarrow> string list \<Rightarrow> string \<Rightarrow> event list" where
  "RequireAtLeastOnePassed c names msg =
     (if \<exists>n \<in> set names. HasParam c n then [] else [Warn msg])"

text \<open>
  Modelled from the spec: \<^verbatim>\<open>RequireParamInSet\<close> (also of \<^verbatim>\<open>mlpack/core/util\<close>) and the
  fatal log. An option value outside the set is reported, with a fatal error when the
  caller asks for one: an unknown optimizer name is a configuration error that aborts the
  run. The second component says whether the run is aborted.
\<close>

definition RequireParamInSet :: "string \<Rightarrow> string list \<Rightarrow> bool \<Rightarrow> string \<Rightarrow> event list \<times> bool" where
  "RequireParamInSet v allowed fatal msg =
     (if v \<in> set allowed then ([], False)
      else if fatal then ([Fatal msg], True)
      else ([Warn msg], False))"

text \<open>Lines 143-146: the seed handed to \<^verbatim>\<open>math::RandomSeed\<close>.\<close>

definition seed_value :: "cli \<Rightarrow> size_t \<Rightarrow> size_t" where
  "seed_value c now = (if seed c \<noteq> 0 then scast (seed c) else now)"

text \<open>Lines 154-171: the notices on unused parameters.\<close>

definition warn_unused :: "cli \<Rightarrow> event list" where
  "warn_unused c =
     (if optimizer c = ''sgd'' then
        ReportIgnoredParam c ''num_basis'' ''L-BFGS optimizer is not being used'' @
        ReportIgnoredParam c ''armijo_constant'' ''L-BFGS optimizer is not being used'' @
        ReportIgnoredParam c ''wolfe'' ''L-BFGS optimizer is not being used'' @
        ReportIgnoredParam c ''max_line_search_trials'' ''L-BFGS optimizer is not being used'' @
        ReportIgnoredParam c ''min_step'' ''L-BFGS optimizer is not being used'' @
        ReportIgnoredParam c ''max_step'' ''L-BFGS optimizer is not being used'' @
        ReportIgnoredParam c ''batch_size'' ''L-BFGS optimizer is not being used''
      else if optimizer c = ''lbfgs'' then
        ReportIgnoredParam c ''step_size'' ''SGD optimizer is not being used'' @
        ReportIgnoredParam c ''linear_scan'' ''SGD optimizer is not being used'' @
        ReportIgnoredParam c ''batch_size'' ''SGD optimizer is not being used''
      else [])"

text \<open>
  Lines 189-208: the labels and the dataset. With \<open>labels\<close> passed, a label count that
  differs from the number of points is fatal. Otherwise the last row of the dataset is
  converted to labels and shed; \<^verbatim>\<open>data.n_rows - 1\<close> is no row of a matrix without rows.
\<close>

definition load_labels :: "cli \<Rightarrow> mat \<Rightarrow> event list \<times> (exit + size_t list \<times> mat)" where
  "load_labels c data =
     (if HasParam c ''labels'' then
        (if length (labels c) \<noteq> n_cols data
         then ([Fatal ''The number of labels must match the number of points!''],
               Inl FatalError)
         else ([], Inr (labels c, data)))
      else
        (let msgs = [Info ''Using last column of input dataset as labels.''] in
         if n_rows data = 0 then (msgs, Inl (ArmaError IndexOutOfBounds))
         else
           (let rawLabels = map (\<lambda>i. size_t_of_double (elem data (n_rows data - 1) i))
                              [0..<n_cols data]
            in case shed_row data (n_rows data - 1) of
                 Inl e \<Rightarrow> (msgs, Inl (ArmaError e))
               | Inr data' \<Rightarrow> (msgs, Inr (rawLabels, data')))))"

text \<open>
  Lines 215-233: the matrix handed to \<^verbatim>\<open>LearnDistance\<close>. The maxima and minima are
  elements of the dataset; their difference and the inverse are results of \<^verbatim>\<open>double\<close>
  operations.
\<close>

definition initial_distance :: "bool \<Rightarrow> mat \<Rightarrow> event list \<times> (exit + dmat)" where
  "initial_distance normalize_flag data =
     (let distance = empty_mat in
      if normalize_flag then
        (case max_dim1 data of
           Inl e \<Rightarrow> ([], Inl (ArmaError e))
         | Inr mx \<Rightarrow>
             (case min_dim1 data of
                Inl e \<Rightarrow> ([], Inl (ArmaError e))
              | Inr mn \<Rightarrow>
                  (let ranges = map2 (\<lambda>a b. round_double (a - b)) mx mn;
                       ranges = map (\<lambda>r. if r = 0 then 1 else r) ranges
                   in ([Info ''Using normalized starting point for optimization.''],
                       Inr (diagmat (map one_over ranges))))))
      else ([], Inr (eye distance)))"

text \<open>
  Lines 173-184, 238-243 and 249-257: the optimizer of the \<^verbatim>\<open>NCA\<close> object with the settings
  written into it, for each of the two optimizers.
\<close>

definition sgd_optimizer :: "cli \<Rightarrow> nca_optimizer" where
  "sgd_optimizer c =
     (let stepSize = step_size c;
          maxIterations = (scast (max_iterations c) :: size_t);
          tolerance = tolerance c;
          shuffle = \<not> HasParam c ''linear_scan'';
          batchSize = (scast (batch_size c) :: size_t)
      in SGD stepSize maxIterations tolerance shuffle batchSize)"

definition lbfgs_optimizer :: "cli \<Rightarrow> nca_optimizer" where
  "lbfgs_optimizer c =
     (let maxIterations = (scast (max_iterations c) :: size_t);
          tolerance = tolerance c;
          numBasis = num_basis c;
          armijoConstant = armijo_constant c;
          wolfe = wolfe c;
          maxLineSearchTrials = max_line_search_trials c;
          minStep = min_step c;
          maxStep = max_step c
      in L_BFGS numBasis maxIterations armijoConstant wolfe tolerance
           maxLineSearchTrials minStep maxStep)"

text \<open>
  Lines 236-260: the \<^verbatim>\<open>NCA\<close> object is built and \<^verbatim>\<open>LearnDistance\<close> called for the two
  known optimizer names; for any other name the matrix is left as it is.
\<close>

definition optimize ::
  "learner \<Rightarrow> size_t \<Rightarrow> cli \<Rightarrow> mat \<Rightarrow> size_t list \<Rightarrow> dmat \<Rightarrow> event list \<times> dmat option" where
  "optimize LearnDistance rng c data lbls distance =
     (if optimizer c = ''sgd'' then
        ([NCA_LearnDistance (sgd_optimizer c) data lbls distance],
         LearnDistance rng (sgd_optimizer c) data lbls distance)
      else if optimizer c = ''lbfgs'' then
        ([NCA_LearnDistance (lbfgs_optimizer c) data lbls distance],
         LearnDistance rng (lbfgs_optimizer c) data lbls distance)
      else ([], Some distance))"

text \<open>
  \<^verbatim>\<open>mlpackMain\<close>. \<open>now\<close> is the value of \<^verbatim>\<open>std::time(NULL)\<close>.
\<close>

definition mlpackMain ::
  "learner \<Rightarrow> (size_t list \<Rightarrow> size_t list) \<Rightarrow> cli \<Rightarrow> size_t \<Rightarrow> event list \<times> exit" where
  "mlpackMain LearnDistance NormalizeLabels c now =
     (let rng = seed_value c now;
          t1 = [RandomSeed rng] @
               RequireAtLeastOnePassed c [''output''] ''no output will be saved'';
          optimizerType = optimizer c
      in case RequireParamInSet optimizerType [''sgd'', ''lbfgs''] True
                ''unknown optimizer type'' of
           (msgs, True) \<Rightarrow> (t1 @ msgs, FatalError)
         | (msgs, False) \<Rightarrow>
             (let t2 = t1 @ msgs @ warn_unused c;
                  normalize_flag = HasParam c ''normalize''
              in case load_labels c (input c) of
                   (msgs, Inl e) \<Rightarrow> (t2 @ msgs, e)
                 | (msgs, Inr (rawLabels, data)) \<Rightarrow>
                     (let t3 = t2 @ msgs;
                          labels = NormalizeLabels rawLabels
                      in case initial_distance normalize_flag data of
                           (msgs, Inl e) \<Rightarrow> (t3 @ msgs, e)
                         | (msgs, Inr distance) \<Rightarrow>
                             (case optimize LearnDistance rng c data labels distance of
                                (call, None) \<Rightarrow> (t3 @ msgs @ call, NoReturn)
                              | (call, Some distance) \<Rightarrow>
                                  (if HasParam c ''output''
                                   then (t3 @ msgs @ call @ [SaveOutput distance], Finished)
                                   else (t3 @ msgs @ call, Finished))))))"

text \<open>The optimizer of a run whose optimizer name is one of the two.\<close>

definition make_optimizer :: "cli \<Rightarrow> nca_optimizer" where
  "make_optimizer c = (if optimizer c = ''sgd'' then sgd_optimizer c else lbfgs_optimizer c)"

text \<open>Observers of a trace.\<close>

fun ignored_notices :: "event list \<Rightarrow> string list" where
  "ignored_notices [] = []"
| "ignored_notices (IgnoredParam name reason # es) = name # ignored_notices es"
| "ignored_notices (e # es) = ignored_notices es"

fun learn_calls :: "event list \<Rightarrow> (nca_optimizer \<times> mat \<times> size_t list \<times> dmat) list" where
  "learn_calls [] = []"
| "learn_calls (NCA_LearnDistance opt d l m # es) = (opt, d, l, m) # learn_calls es"
| "learn_calls (e # es) = learn_calls es"

fun seedings :: "event list \<Rightarrow> size_t list" where
  "seedings [] = []"
| "seedings (RandomSeed s # es) = s # seedings es"
| "seedings (e # es) = seedings es"

text \<open>
  The range of feature \<open>i\<close> of a dataset, in the spec's words: its maximum minus its
  minimum over the points.
\<close>

definition feature_range :: "mat \<Rightarrow> nat \<Rightarrow> real" where
  "feature_range data i =
     Max (elem data i ` {..<n_cols data}) - Min (elem data i ` {..<n_cols data})"

text \<open>
  The inverse of a feature's range \<open>r\<close> as the normalized start holds it: 1 for a range
  of 0 (the range is replaced by 1), 0 for a range at or beyond the overflow threshold
  (the difference is an infinity), an infinity for a range whose inverse is at or beyond
  the overflow threshold, and the inverse otherwise.
\<close>

definition inverse_range :: "real \<Rightarrow> double" where
  "inverse_range r =
     (if r = 0 then Finite 1
      else if overflow_threshold \<le> r then Finite 0
      else if overflow_threshold \<le> 1 / r then PosInf
      else Finite (1 / r))"

section \<open>PCA whitening (pcawhitening.hpp)\<close>

text \<open>Transposition \<^verbatim>\<open>M.t()\<close>.\<close>

definition mat_t :: "mat \<Rightarrow> mat" where
  "mat_t M = \<lparr>n_rows = n_cols M, n_cols = n_rows M, elem = (\<lambda>i j. elem M j i)\<rparr>"

text \<open>The product \<^verbatim>\<open>A * B\<close>; the library rejects operands whose sizes do not fit.\<close>

definition mat_times :: "mat \<Rightarrow> mat \<Rightarrow> arma_error + mat" where
  "mat_times A B =
     (if n_cols A = n_rows B
      then Inr \<lparr>n_rows = n_rows A, n_cols = n_cols B,
                elem = (\<lambda>i j. \<Sum>k<n_cols A. elem A i k * elem B k j)\<rparr>
      else Inl IncompatibleDimensions)"

text \<open>
  \<^verbatim>\<open>arma::mean(M, 1)\<close>: the mean of each row. As for the row maximum, a matrix with rows
  but no columns has none.
\<close>

definition mean_dim1 :: "mat \<Rightarrow> arma_error + real list" where
  "mean_dim1 M =
     (if n_cols M = 0 \<and> 0 < n_rows M then Inl EmptyObject
      else Inr (map (\<lambda>i. (\<Sum>j<n_cols M. elem M i j) / real (n_cols M)) [0..<n_rows M]))"

text \<open>\<^verbatim>\<open>M.each_col() - v\<close> and \<^verbatim>\<open>M.each_col() + v\<close>, for a vector with one element per row.\<close>

definition each_col_minus :: "mat \<Rightarrow> real list \<Rightarrow> arma_error + mat" where
  "each_col_minus M v =
     (if length v = n_rows M then Inr (M\<lparr>elem := (\<lambda>i j. elem M i j - v ! i)\<rparr>)
      else Inl IncompatibleDimensions)"

definition each_col_plus :: "mat \<Rightarrow> real list \<Rightarrow> arma_error + mat" where
  "each_col_plus M v =
     (if length v = n_rows M then Inr (M\<lparr>elem := (\<lambda>i j. elem M i j + v ! i)\<rparr>)
      else Inl IncompatibleDimensions)"

text \<open>
  Modelled from the spec: \<^verbatim>\<open>mlpack::math::ColumnCovariance\<close> (\<^verbatim>\<open>mlpack/core/math\<close>, not
  among the sources), the covariance matrix of the features, the points (columns) being
  the observations: element \<open>(i, j)\<close> is the sum over the points of the products of the
  deviations of features \<open>i\<close> and \<open>j\<close> from their means, divided by the number of points
  less one (by one for a single point).
\<close>

definition ColumnCovariance :: "mat \<Rightarrow> mat" where
  "ColumnCovariance x =
     (let n = n_cols x;
          normVal = (if 1 < n then real (n - 1) else 1);
          mean = (\<lambda>i. (\<Sum>k<n. elem x i k) / real n)
      in \<lparr>n_rows = n_rows x, n_cols = n_rows x,
          elem = (\<lambda>i j. (\<Sum>k<n. (elem x i k - mean i) * (elem x j k - mean j)) / normVal)\<rparr>)"

text \<open>
  \<^verbatim>\<open>arma::eig_sym\<close> is a parameter of the model: a function from a matrix to eigenvalues
  and eigenvectors. \<open>is_eig_sym A r\<close> is the library's contract for a result \<open>r\<close> on a
  symmetric matrix \<open>A\<close>: one eigenvalue per row of \<open>A\<close>, the columns of the second
  component orthonormal, column \<open>j\<close> an eigenvector for eigenvalue \<open>j\<close>.
\<close>

type_synonym eigensolver = "mat \<Rightarrow> real list \<times> mat"

definition is_eig_sym :: "mat \<Rightarrow> real list \<times> mat \<Rightarrow> bool" where
  "is_eig_sym A r \<longleftrightarrow>
     (case r of (eigval, eigvec) \<Rightarrow>
        length eigval = n_rows A \<and> n_rows eigvec = n_rows A \<and> n_cols eigvec = n_rows A \<and>
        (\<forall>i<n_rows A. \<forall>j<n_rows A.
           (\<Sum>k<n_rows A. elem eigvec k i * elem eigvec k j) = (if i = j then 1 else 0)) \<and>
        (\<forall>i<n_rows A. \<forall>j<n_rows A.
           (\<Sum>k<n_rows A. elem A i k * elem eigvec k j) = eigval ! j * elem eigvec i j))"

text \<open>
  \<^verbatim>\<open>arma::inv\<close> is a parameter too: it returns a matrix or rejects its argument.
  \<open>is_inverse A B\<close> says that \<open>B\<close> is the inverse of the square matrix \<open>A\<close>.
\<close>

type_synonym inverter = "mat \<Rightarrow> arma_error + mat"

definition is_inverse :: "mat \<Rightarrow> mat \<Rightarrow> bool" where
  "is_inverse A B \<longleftrightarrow>
     n_rows A = n_cols A \<and> n_rows B = n_rows A \<and> n_cols B = n_rows A \<and>
     (\<forall>i<n_rows A. \<forall>j<n_rows A.
        (\<Sum>k<n_rows A. elem A i k * elem B k j) = (if i = j then 1 else 0)) \<and>
     (\<forall>i<n_rows A. \<forall>j<n_rows A.
        (\<Sum>k<n_rows A. elem B i k * elem A k j) = (if i = j then 1 else 0))"

text \<open>The inverter returns the inverse of \<open>A\<close>.\<close>

definition inverts :: "inverter \<Rightarrow> mat \<Rightarrow> bool" where
  "inverts inverse_of A \<longleftrightarrow>
     (case inverse_of A of Inl e \<Rightarrow> False | Inr B \<Rightarrow> is_inverse A B)"

text \<open>The class \<^verbatim>\<open>PcaWhitening\<close> and its constructor.\<close>

record PcaWhitening =
  itemMean :: "real list"
  eigenVectors :: mat
  epsilon :: real
  eigenValues :: "real list"

definition new_PcaWhitening :: "real \<Rightarrow> PcaWhitening" where
  "new_PcaWhitening eps =
     \<lparr>itemMean = [], eigenVectors = empty_mat, epsilon = eps, eigenValues = []\<rparr>"

text \<open>Lines 65-67 of \<^verbatim>\<open>Transform\<close>: the feature means and the centred input.\<close>

definition centre :: "mat \<Rightarrow> arma_error + real list \<times> mat" where
  "centre inp =
     (case mean_dim1 inp of
        Inl e \<Rightarrow> Inl e
      | Inr mean \<Rightarrow>
          (case each_col_minus inp mean of
             Inl e \<Rightarrow> Inl e
           | Inr output \<Rightarrow> Inr (mean, output)))"

text \<open>
  \<^verbatim>\<open>Transform\<close> returns the object with its members set and the output matrix. The
  square root is the real one; the theorems below use it on positive numbers only.
\<close>

definition Transform ::
  "eigensolver \<Rightarrow> PcaWhitening \<Rightarrow> mat \<Rightarrow> arma_error + PcaWhitening \<times> mat" where
  "Transform eig_sym self inp =
     (case centre inp of
        Inl e \<Rightarrow> Inl e
      | Inr (mean, output) \<Rightarrow>
          (case eig_sym (ColumnCovariance output) of
             (eigval, eigvec) \<Rightarrow>
               (let eigval = map (\<lambda>v. v + epsilon self) eigval;
                    self = self\<lparr>itemMean := mean, eigenVectors := eigvec, eigenValues := eigval\<rparr>
                in case mat_times (diagmat (map (\<lambda>v. 1 / sqrt v) eigval)) (mat_t eigvec) of
                     Inl e \<Rightarrow> Inl e
                   | Inr m \<Rightarrow>
                       (case mat_times m output of
                          Inl e \<Rightarrow> Inl e
                        | Inr output \<Rightarrow> Inr (self, output)))))"

definition InverseTransform :: "inverter \<Rightarrow> PcaWhitening \<Rightarrow> mat \<Rightarrow> arma_error + mat" where
  "InverseTransform inverse_of self inp =
     (case inverse_of (mat_t (eigenVectors self)) of
        Inl e \<Rightarrow> Inl e
      | Inr vi \<Rightarrow>
          (case mat_times (diagmat (map sqrt (eigenValues self))) vi of
             Inl e \<Rightarrow> Inl e
           | Inr m \<Rightarrow>
               (case mat_times m inp of
                  Inl e \<Rightarrow> Inl e
                | Inr output \<Rightarrow> each_col_plus output (itemMean self))))"

text \<open>
  The eigensolver meets its contract on the matrix \<^verbatim>\<open>Transform\<close> passes to it for the
  input \<open>inp\<close>.
\<close>

definition meets_contract :: "eigensolver \<Rightarrow> mat \<Rightarrow> bool" where
  "meets_contract eig_sym inp \<longleftrightarrow>
     (case centre inp of
        Inl e \<Rightarrow> True
      | Inr (mean, xc) \<Rightarrow> is_eig_sym (ColumnCovariance xc) (eig_sym (ColumnCovariance xc)))"

text \<open>A square matrix has full rank when only the zero vector is mapped to zero.\<close>

definition full_rank :: "mat \<Rightarrow> bool" where
  "full_rank A \<longleftrightarrow>
     (\<forall>x. (\<forall>i<n_rows A. (\<Sum>j<n_cols A. elem A i j * x j) = 0) \<longrightarrow> (\<forall>j<n_cols A. x j = 0))"

section \<open>Concrete inputs\<close>

text \<open>A matrix from the list of its rows.\<close>

definition mat_of_rows :: "real list list \<Rightarrow> mat" where
  "mat_of_rows rows =
     \<lparr>n_rows = length rows, n_cols = (case rows of [] \<Rightarrow> 0 | r # _ \<Rightarrow> length r),
      elem = (\<lambda>i j. rows ! i ! j)\<rparr>"

text \<open>SGD with \<open>batch_size\<close> passed: one feature, two points, the labels in the last row.\<close>

definition sgd_batch_cli :: cli where
  "sgd_batch_cli =
     (defaults (mat_of_rows [[1, 2], [0, 1]]))
       \<lparr>passed := [''input'', ''batch_size''], batch_size := 10\<rparr>"

text \<open>The defaults on a dataset of two features and two points (labels in the last row).\<close>

definition identity_cli :: cli where
  "identity_cli = defaults (mat_of_rows [[1, 2], [3, 4], [0, 1]])"

text \<open>Ten points and a label vector of nine elements.\<close>

definition mismatch_cli :: cli where
  "mismatch_cli =
     (defaults (mat_of_rows [[0, 1, 2, 3, 4, 5, 6, 7, 8, 9]]))
       \<lparr>passed := [''input'', ''labels''], labels := [0, 0, 0, 0, 0, 1, 1, 1, 1]\<rparr>"

text \<open>An optimizer name that is not known.\<close>

definition unknown_optimizer_cli :: cli where
  "unknown_optimizer_cli =
     (defaults (mat_of_rows [[1, 2], [0, 1]]))
       \<lparr>passed := [''input'', ''optimizer''], optimizer := ''adam''\<rparr>"

text \<open>A fixed seed and \<open>linear_scan\<close>.\<close>

definition seeded_cli :: cli where
  "seeded_cli =
     (defaults (mat_of_rows [[1, 2], [0, 1]]))
       \<lparr>passed := [''input'', ''linear_scan'', ''seed''], seed := 42\<rparr>"

text \<open>
  \<open>normalize\<close> on a dataset whose first feature has the range [0, 10] and whose second
  feature is constant.
\<close>

definition normalize_cli :: cli where
  "normalize_cli =
     (defaults (mat_of_rows [[0, 10], [5, 5], [0, 1]]))\<lparr>passed := [''input'', ''normalize'']\<rparr>"

text \<open>
  \<open>normalize\<close> on a dataset whose only feature has the values 0 and \<open>2^-1074\<close>, the
  smallest positive \<^verbatim>\<open>double\<close>.
\<close>

definition tiny_range_cli :: cli where
  "tiny_range_cli =
     (defaults (mat_of_rows [[0, 1 / 2 ^ 1074], [0, 1]]))\<lparr>passed := [''input'', ''normalize'']\<rparr>"

text \<open>The defaults on a dataset whose last row holds a negative number.\<close>

definition negative_label_cli :: cli where
  "negative_label_cli = defaults (mat_of_rows [[1, 2], [- 1, 0]])"

text \<open>The defaults on a dataset whose last row holds the fractions 2.7 and 1.5.\<close>

definition fraction_label_cli :: cli where
  "fraction_label_cli = defaults (mat_of_rows [[1, 2], [3, 4], [27 / 10, 3 / 2]])"

text \<open>Labels passed separately.\<close>

definition labelled_cli :: cli where
  "labelled_cli =
     (defaults (mat_of_rows [[1, 2], [3, 4]]))
       \<lparr>passed := [''input'', ''labels''], labels := [7, 9]\<rparr>"

text \<open>An optimizer that returns the matrix it was handed.\<close>

definition keep_start :: learner where
  "keep_start rng opt data lbls distance = Some distance"

text \<open>
  A dataset of two features and five points with the covariance matrix
  ((73, -36), (-36, 52)), an eigendecomposition of that matrix (eigenvalues 25 and 100),
  and the inverse of an orthogonal matrix.
\<close>

definition X0 :: mat where
  "X0 = mat_of_rows [[-5, 11, -11, 5, 0], [10, -2, 2, -10, 0]]"

definition V0 :: mat where
  "V0 = mat_of_rows [[3 / 5, - 4 / 5], [4 / 5, 3 / 5]]"

definition eig0 :: eigensolver where
  "eig0 A = ([25, 100], V0)"

definition inv0 :: inverter where
  "inv0 A = Inr (mat_t A)"




section \<open>Properties of the NCA executable\<close>

subsection \<open>What reaches the optimizer\<close>

lemma optimize_known:
  assumes "optimizer c \<in> {''sgd'', ''lbfgs''}"
  shows "optimize L rng c data lbls distance =
           ([NCA_LearnDistance (make_optimizer c) data lbls distance],
            L rng (make_optimizer c) data lbls distance)"
  using assms by (auto simp: optimize_def make_optimizer_def)

lemma mlpackMain_unfold:
  "mlpackMain LearnDistance NormalizeLabels c now =
     (let rng = seed_value c now;
          t1 = [RandomSeed rng] @
               RequireAtLeastOnePassed c [''output''] ''no output will be saved''
      in if optimizer c \<notin> set [''sgd'', ''lbfgs'']
         then (t1 @ [Fatal ''unknown optimizer type''], FatalError)
         else
           (let t2 = t1 @ warn_unused c
            in case load_labels c (input c) of
                 (msgs, Inl e) \<Rightarrow> (t2 @ msgs, e)
               | (msgs, Inr (rawLabels, data)) \<Rightarrow>
                   (let t3 = t2 @ msgs
                    in case initial_distance (HasParam c ''normalize'') data of
                         (msgs', Inl e) \<Rightarrow> (t3 @ msgs', e)
                       | (msgs', Inr distance) \<Rightarrow>
                           (let t4 = t3 @ msgs' @
                                  [NCA_LearnDistance (make_optimizer c) data
                                     (NormalizeLabels rawLabels) distance]
                            in case LearnDistance rng (make_optimizer c) data
                                      (NormalizeLabels rawLabels) distance of
                                 None \<Rightarrow> (t4, NoReturn)
                               | Some learned \<Rightarrow>
                                   (if HasParam c ''output''
                                    then (t4 @ [SaveOutput learned], Finished)
                                    else (t4, Finished))))))"
proof (cases "optimizer c \<in> {''sgd'', ''lbfgs''}")
  case False
  then show ?thesis by (simp add: mlpackMain_def RequireParamInSet_def Let_def)
next
  case True
  then have r: "RequireParamInSet (optimizer c) [''sgd'', ''lbfgs''] True
                  ''unknown optimizer type'' = ([], False)"
    by (auto simp: RequireParamInSet_def)
  show ?thesis
    using True
    by (simp add: mlpackMain_def r Let_def optimize_known[OF True]
        split: prod.splits sum.splits option.splits)
qed

lemma learn_calls_append: "learn_calls (xs @ ys) = learn_calls xs @ learn_calls ys"
  by (induction xs rule: learn_calls.induct) simp_all

lemma learn_calls_ReportIgnoredParam: "learn_calls (ReportIgnoredParam c n r) = []"
  by (simp add: ReportIgnoredParam_def)

lemma learn_calls_RequireAtLeastOnePassed: "learn_calls (RequireAtLeastOnePassed c ns m) = []"
  by (simp add: RequireAtLeastOnePassed_def)

lemma learn_calls_warn_unused: "learn_calls (warn_unused c) = []"
  by (simp add: warn_unused_def learn_calls_append learn_calls_ReportIgnoredParam)

lemma learn_calls_load_labels: "learn_calls (fst (load_labels c d)) = []"
  by (simp add: load_labels_def Let_def split: option.split sum.split)

lemma learn_calls_initial_distance: "learn_calls (fst (initial_distance b d)) = []"
  by (simp add: initial_distance_def Let_def split: sum.split)

lemma mlpackMain_learn_calls:
  "learn_calls (fst (mlpackMain L N c now)) =
     (if optimizer c \<in> {''sgd'', ''lbfgs''} then
        (case snd (load_labels c (input c)) of
           Inl e \<Rightarrow> []
         | Inr (raw, data) \<Rightarrow>
             (case snd (initial_distance (HasParam c ''normalize'') data) of
                Inl e \<Rightarrow> []
              | Inr distance \<Rightarrow> [(make_optimizer c, data, N raw, distance)]))
      else [])"
proof -
  obtain m1 r1 where l: "load_labels c (input c) = (m1, r1)" by (cases "load_labels c (input c)")
  have m1: "learn_calls m1 = []" using learn_calls_load_labels[of c "input c"] l by simp
  show ?thesis
  proof (cases r1)
    case (Inl e)
    then show ?thesis using l m1
      by (simp add: mlpackMain_unfold Let_def learn_calls_append learn_calls_warn_unused
          learn_calls_RequireAtLeastOnePassed)
  next
    case (Inr p)
    obtain raw data where p: "p = (raw, data)" by (cases p)
    obtain m2 r2 where i: "initial_distance (HasParam c ''normalize'') data = (m2, r2)"
      by (cases "initial_distance (HasParam c ''normalize'') data")
    have m2: "learn_calls m2 = []"
      using learn_calls_initial_distance[of "HasParam c ''normalize''" data] i by simp
    show ?thesis using l m1 Inr p i m2
      by (cases r2)
         (simp_all add: mlpackMain_unfold Let_def learn_calls_append learn_calls_warn_unused
          learn_calls_RequireAtLeastOnePassed split: option.split)
  qed
qed

lemma learn_call_optimizer:
  assumes "call \<in> set (learn_calls (fst (mlpackMain L N c now)))"
  shows "fst call = make_optimizer c"
proof (cases "snd (load_labels c (input c))")
  case (Inl e)
  have *: "learn_calls (fst (mlpackMain L N c now)) = []"
    unfolding mlpackMain_learn_calls Inl by simp
  from assms have False unfolding * by simp
  then show ?thesis ..
next
  case (Inr p)
  obtain raw data where p: "p = (raw, data)" by (cases p)
  show ?thesis
  proof (cases "snd (initial_distance (HasParam c ''normalize'') data)")
    case (Inl e)
    have *: "learn_calls (fst (mlpackMain L N c now)) = []"
      unfolding mlpackMain_learn_calls \<open>snd (load_labels c (input c)) = Inr p\<close> p by (simp add: Inl)
    from assms have False unfolding * by simp
    then show ?thesis ..
  next
    case (Inr d)
    have *: "learn_calls (fst (mlpackMain L N c now)) = [] \<or> 
             learn_calls (fst (mlpackMain L N c now)) = [(make_optimizer c, data, N raw, d)]"
      unfolding mlpackMain_learn_calls \<open>snd (load_labels c (input c)) = Inr p\<close> p by (simp add: Inr)
    with assms show ?thesis by auto
  qed
qed

subsection \<open>Seeding\<close>

lemma seedings_append: "seedings (xs @ ys) = seedings xs @ seedings ys"
  by (induction xs rule: seedings.induct) simp_all

lemma seedings_ReportIgnoredParam: "seedings (ReportIgnoredParam c n r) = []"
  by (simp add: ReportIgnoredParam_def)

lemma seedings_RequireAtLeastOnePassed: "seedings (RequireAtLeastOnePassed c ns m) = []"
  by (simp add: RequireAtLeastOnePassed_def)

lemma seedings_warn_unused: "seedings (warn_unused c) = []"
  by (simp add: warn_unused_def seedings_append seedings_ReportIgnoredParam)

lemma seedings_load_labels: "seedings (fst (load_labels c d)) = []"
  by (simp add: load_labels_def Let_def split: option.split sum.split)

lemma seedings_initial_distance: "seedings (fst (initial_distance b d)) = []"
  by (simp add: initial_distance_def Let_def split: sum.split)

lemma mlpackMain_trace:
  "\<exists>rest. fst (mlpackMain L N c now) = RandomSeed (seed_value c now) # rest \<and> seedings rest = []"
proof -
  obtain m1 r1 where l: "load_labels c (input c) = (m1, r1)" by (cases "load_labels c (input c)")
  have m1: "seedings m1 = []" using seedings_load_labels[of c "input c"] l by simp
  show ?thesis
  proof (cases r1)
    case (Inl e)
    then show ?thesis using l m1
      by (simp add: mlpackMain_unfold Let_def seedings_append seedings_warn_unused
          seedings_RequireAtLeastOnePassed)
  next
    case (Inr p)
    obtain raw data where p: "p = (raw, data)" by (cases p)
    obtain m2 r2 where i: "initial_distance (HasParam c ''normalize'') data = (m2, r2)"
      by (cases "initial_distance (HasParam c ''normalize'') data")
    have m2: "seedings m2 = []"
      using seedings_initial_distance[of "HasParam c ''normalize''" data] i by simp
    show ?thesis using l m1 Inr p i m2
      by (cases r2)
         (simp_all add: mlpackMain_unfold Let_def seedings_append seedings_warn_unused
          seedings_RequireAtLeastOnePassed split: option.split)
  qed
qed

text \<open>The conversion of the seed to \<^verbatim>\<open>size_t\<close> keeps its value as a signed number.\<close>

lemma seed_value_signed: "sint (scast (w :: 32 word) :: 64 word) = sint w"
  by (simp add: sint_up_scast is_up)

text \<open>
  C9: The first thing a run does is to seed the random generator, and it seeds it once:
  with the value of \<open>seed\<close> (converted to \<^verbatim>\<open>size_t\<close>, the same signed number) when
  that value is not 0, with the clock's value when it is 0. This holds for every run,
  also one that ends in an error.
\<close>

theorem seeding_first:
  "(\<exists>rest. fst (mlpackMain L N c now) =
             RandomSeed (if seed c \<noteq> 0 then scast (seed c) else now) # rest \<and>
           seedings rest = []) \<and>
   sint (scast (seed c) :: size_t) = sint (seed c)"
  using mlpackMain_trace[of L N c now] by (simp add: seed_value_def seed_value_signed)

theorem seeding_first_witness:
  "(\<exists>rest. fst (mlpackMain keep_start id seeded_cli 5) = RandomSeed 42 # rest \<and> seedings rest = []) \<and>
   (\<exists>rest. fst (mlpackMain keep_start id identity_cli 5) = RandomSeed 5 # rest \<and> seedings rest = [])"
  using seeding_first[of keep_start id seeded_cli 5] seeding_first[of keep_start id identity_cli 5]
  by (simp add: seeded_cli_def identity_cli_def defaults_def)

subsection \<open>Configuration errors\<close>

text \<open>
  C4: An optimizer name other than \<open>sgd\<close> and \<open>lbfgs\<close>, and a label vector passed
  separately whose length is not the number of points, both end the run with a fatal
  error, logged last; no \<^verbatim>\<open>NCA\<close> object was built and \<^verbatim>\<open>LearnDistance\<close> was not
  called: the trace holds no such call and the run is the same for every optimizer.
\<close>

theorem config_errors_fatal:
  assumes "optimizer c \<notin> {''sgd'', ''lbfgs''} \<or>
           (HasParam c ''labels'' \<and> length (labels c) \<noteq> n_cols (input c))"
  shows "snd (mlpackMain L N c now) = FatalError \<and>
         (\<exists>msg. last (fst (mlpackMain L N c now)) = Fatal msg) \<and>
         learn_calls (fst (mlpackMain L N c now)) = [] \<and>
         mlpackMain L' N' c now = mlpackMain L N c now"
proof (cases "optimizer c \<in> {''sgd'', ''lbfgs''}")
  case False
  then show ?thesis
    by (simp add: mlpackMain_unfold Let_def learn_calls_append learn_calls_RequireAtLeastOnePassed)
next
  case True
  with assms have lab: "HasParam c ''labels''" "length (labels c) \<noteq> n_cols (input c)"
    by auto
  then have "load_labels c (input c) =
      ([Fatal ''The number of labels must match the number of points!''], Inl FatalError)"
    by (simp add: load_labels_def)
  with True show ?thesis
    by (simp add: mlpackMain_unfold Let_def learn_calls_append learn_calls_RequireAtLeastOnePassed
        learn_calls_warn_unused)
qed

theorem config_errors_fatal_witness:
  "HasParam mismatch_cli ''labels'' \<and> length (labels mismatch_cli) = 9 \<and>
   n_cols (input mismatch_cli) = 10 \<and>
   snd (mlpackMain keep_start id mismatch_cli 0) = FatalError \<and>
   learn_calls (fst (mlpackMain keep_start id mismatch_cli 0)) = [] \<and>
   optimizer unknown_optimizer_cli = ''adam'' \<and>
   snd (mlpackMain keep_start id unknown_optimizer_cli 0) = FatalError \<and>
   learn_calls (fst (mlpackMain keep_start id unknown_optimizer_cli 0)) = []"
proof -
  have h: "HasParam mismatch_cli ''labels''" "length (labels mismatch_cli) = 9"
    "n_cols (input mismatch_cli) = 10"
    by (simp_all add: mismatch_cli_def defaults_def HasParam_def mat_of_rows_def)
  have u: "optimizer unknown_optimizer_cli = ''adam''"
    by (simp add: unknown_optimizer_cli_def defaults_def)
  show ?thesis
    using h u config_errors_fatal[of mismatch_cli keep_start id 0 keep_start id]
      config_errors_fatal[of unknown_optimizer_cli keep_start id 0 keep_start id]
    by simp
qed

subsection \<open>Repeated runs\<close>

text \<open>
  What the program itself fixes about repeated runs on one command line: with a seed
  other than 0 the clock does not reach the run, and with \<open>linear_scan\<close> the SGD optimizer
  is called without shuffling. What the optimizer computes is not part of these sources.
\<close>

lemma seeded_run_ignores_clock:
  assumes "seed c \<noteq> 0"
  shows "mlpackMain L N c now = mlpackMain L N c now'"
proof -
  have "seed_value c now = seed_value c now'" using assms by (simp add: seed_value_def)
  then show ?thesis unfolding mlpackMain_unfold by (simp only:)
qed

lemma linear_scan_disables_shuffling:
  assumes "HasParam c ''linear_scan''" and "optimizer c = ''sgd''"
    and "call \<in> set (learn_calls (fst (mlpackMain L N c now)))"
  shows "\<exists>a n t b. fst call = SGD a n t False b"
proof -
  have "\<exists>a n t b. make_optimizer c = SGD a n t False b"
    using assms(1,2) by (simp add: make_optimizer_def sgd_optimizer_def Let_def)
  then show ?thesis using learn_call_optimizer[OF assms(3)] by simp
qed

subsection \<open>Notices on ignored options\<close>

text \<open>The options a run reports as ignored.\<close>

lemma ignored_notices_append:
  "ignored_notices (xs @ ys) = ignored_notices xs @ ignored_notices ys"
  by (induction xs rule: ignored_notices.induct) simp_all

lemma ignored_notices_load_labels: "ignored_notices (fst (load_labels c d)) = []"
  by (simp add: load_labels_def Let_def split: option.split sum.split)

lemma ignored_notices_initial_distance: "ignored_notices (fst (initial_distance b d)) = []"
  by (simp add: initial_distance_def Let_def split: sum.split)

lemma ignored_notices_RequireAtLeastOnePassed:
  "ignored_notices (RequireAtLeastOnePassed c ns m) = []"
  by (simp add: RequireAtLeastOnePassed_def)

lemma ignored_notices_warn_unused:
  "ignored_notices (warn_unused c) =
     (if optimizer c = ''sgd'' then
        filter (HasParam c)
          [''num_basis'', ''armijo_constant'', ''wolfe'', ''max_line_search_trials'',
           ''min_step'', ''max_step'', ''batch_size'']
      else if optimizer c = ''lbfgs'' then
        filter (HasParam c) [''step_size'', ''linear_scan'', ''batch_size'']
      else [])"
  by (simp add: warn_unused_def ReportIgnoredParam_def ignored_notices_append)

lemma mlpackMain_ignored_notices:
  "ignored_notices (fst (mlpackMain L N c now)) =
     (if optimizer c \<in> {''sgd'', ''lbfgs''} then ignored_notices (warn_unused c) else [])"
proof -
  obtain m1 r1 where l: "load_labels c (input c) = (m1, r1)" by (cases "load_labels c (input c)")
  have m1: "ignored_notices m1 = []" using ignored_notices_load_labels[of c "input c"] l by simp
  show ?thesis
  proof (cases r1)
    case (Inl e)
    then show ?thesis using l m1
      by (simp add: mlpackMain_unfold Let_def ignored_notices_append
          ignored_notices_RequireAtLeastOnePassed)
  next
    case (Inr p)
    obtain raw data where p: "p = (raw, data)" by (cases p)
    obtain m2 r2 where i: "initial_distance (HasParam c ''normalize'') data = (m2, r2)"
      by (cases "initial_distance (HasParam c ''normalize'') data")
    have m2: "ignored_notices m2 = []"
      using ignored_notices_initial_distance[of "HasParam c ''normalize''" data] i by simp
    show ?thesis using l m1 Inr p i m2
      by (cases r2)
         (simp_all add: mlpackMain_unfold Let_def ignored_notices_append
          ignored_notices_RequireAtLeastOnePassed split: option.split)
  qed
qed

text \<open>
  Inside the range of \<^verbatim>\<open>size_t\<close> the conversion is the truncation: for \<open>-1 < x < 2^64\<close>
  the label is the integer part of \<open>x\<close>.
\<close>

lemma trunc_shift:
  assumes "2 ^ 63 \<le> x"
  shows "trunc (x - 2 ^ 63) = trunc x - 2 ^ 63"
proof -
  have "\<lfloor>x - 2 ^ 63\<rfloor> = \<lfloor>x - of_int (2 ^ 63)\<rfloor>" by simp
  also have "\<dots> = \<lfloor>x\<rfloor> - 2 ^ 63" by (rule floor_diff_of_int)
  finally show ?thesis using assms by (simp add: trunc_def)
qed

lemma trunc_bounds:
  assumes "- 1 < x" and "x < 2 ^ n"
  shows "0 \<le> trunc x" and "trunc x < 2 ^ n"
proof -
  show "0 \<le> trunc x" using assms(1) by (simp add: trunc_def)
  show "trunc x < 2 ^ n"
  proof (cases "0 \<le> x")
    case True
    then show ?thesis using assms(2) by (simp add: trunc_def floor_less_iff)
  next
    case False
    then have "\<lceil>x\<rceil> \<le> 0" by (simp add: ceiling_le_iff)
    moreover have "(0::int) < 2 ^ n" by simp
    ultimately have "\<lceil>x\<rceil> < 2 ^ n" by (rule le_less_trans)
    then show ?thesis using False by (simp add: trunc_def)
  qed
qed

lemma size_t_of_double_in_range:
  assumes "- 1 < x" and "x < 2 ^ 64"
  shows "size_t_of_double x = word_of_int (trunc x)"
proof (cases "x < 2 ^ 63")
  case True
  from trunc_bounds[OF assms(1) True] show ?thesis
    using True by (simp add: size_t_of_double_def cvttsd2si_def)
next
  case False
  then have x: "2 ^ 63 \<le> x" by simp
  then have "- 1 < x - 2 ^ 63" by simp
  moreover have "x - 2 ^ 63 < 2 ^ 63" using assms(2) by simp
  ultimately have b: "0 \<le> trunc (x - 2 ^ 63)" "trunc (x - 2 ^ 63) < 2 ^ 63"
    by (rule trunc_bounds)+
  have "size_t_of_double x = word_of_int (trunc (x - 2 ^ 63)) + 2 ^ 63"
    using False b unfolding size_t_of_double_def cvttsd2si_def by simp
  also have "\<dots> = word_of_int (trunc x - 2 ^ 63) + word_of_int (2 ^ 63)"
    unfolding trunc_shift[OF x] by simp
  also have "\<dots> = word_of_int (trunc x)"
    by (simp add: wi_hom_add)
  finally show ?thesis .
qed

lemma size_t_of_double_uint:
  assumes "- 1 < x" and "x < 2 ^ 64"
  shows "uint (size_t_of_double x) = trunc x"
proof -
  from trunc_bounds[OF assms] have "0 \<le> trunc x" "trunc x < 2 ^ 64" .
  then have "trunc x mod 2 ^ 64 = trunc x" by simp
  then show ?thesis by (simp add: size_t_of_double_in_range[OF assms] uint_word_of_int)
qed

lemma trunc_simps: "trunc 0 = 0" "trunc 1 = 1" "trunc (numeral n) = numeral n"
  by (simp_all add: trunc_def)

lemma size_t_of_double_simps: "size_t_of_double 0 = 0" "size_t_of_double 1 = 1"
  by (simp_all add: size_t_of_double_in_range trunc_simps)

lemma load_labels_sgd_batch_cli:
  "\<exists>d. load_labels sgd_batch_cli (input sgd_batch_cli) =
     ([Info ''Using last column of input dataset as labels.''], Inr ([0, 1], d)) \<and> n_rows d = 1"
  by (simp add: load_labels_def sgd_batch_cli_def defaults_def HasParam_def mat_of_rows_def
      Let_def size_t_of_double_simps shed_row_def upt_rec)

text \<open>
  C2: With the SGD optimizer and \<open>batch_size\<close> passed, the run reports
  \<open>batch_size\<close> as ignored, and then hands that batch size to the SGD optimizer.
\<close>

theorem sgd_batch_size_reported_ignored:
  "ignored_notices (fst (mlpackMain L N sgd_batch_cli now)) = [''batch_size''] \<and>
   map (\<lambda>call. BatchSize (fst call)) (learn_calls (fst (mlpackMain L N sgd_batch_cli now))) = [10]"
proof
  obtain d where l: "load_labels sgd_batch_cli (input sgd_batch_cli) =
     ([Info ''Using last column of input dataset as labels.''], Inr ([0, 1], d))"
    using load_labels_sgd_batch_cli by blast
  have i: "initial_distance False d = ([], Inr (eye empty_mat))"
    by (simp add: initial_distance_def)
  have h: "\<not> HasParam sgd_batch_cli ''normalize''" "optimizer sgd_batch_cli = ''sgd''"
    by (simp_all add: sgd_batch_cli_def defaults_def HasParam_def)
  have w: "warn_unused sgd_batch_cli = [IgnoredParam ''batch_size'' ''L-BFGS optimizer is not being used'']"
    by (simp add: warn_unused_def ReportIgnoredParam_def sgd_batch_cli_def defaults_def HasParam_def)
  show "ignored_notices (fst (mlpackMain L N sgd_batch_cli now)) = [''batch_size'']"
    by (simp add: mlpackMain_unfold Let_def l i h w RequireAtLeastOnePassed_def split: option.split)
  have "make_optimizer sgd_batch_cli = SGD (1 / 100) 500000 (1 / 10 ^ 7) True 10"
    by (simp add: make_optimizer_def sgd_optimizer_def sgd_batch_cli_def defaults_def HasParam_def)
  then show "map (\<lambda>call. BatchSize (fst call)) (learn_calls (fst (mlpackMain L N sgd_batch_cli now))) = [10]"
    unfolding mlpackMain_learn_calls by (simp add: l i h)
qed

subsection \<open>The matrix handed to the optimizer\<close>

lemma load_labels_identity_cli:
  "\<exists>d. load_labels identity_cli (input identity_cli) =
     ([Info ''Using last column of input dataset as labels.''], Inr ([0, 1], d)) \<and> n_rows d = 2"
  by (simp add: load_labels_def identity_cli_def defaults_def HasParam_def mat_of_rows_def
      Let_def size_t_of_double_simps shed_row_def upt_rec)

text \<open>
  Without \<open>normalize\<close>, every call of \<^verbatim>\<open>LearnDistance\<close> is handed a matrix without rows
  and columns.
\<close>

lemma identity_start_every_run:
  assumes "\<not> HasParam c ''normalize''"
    and "call \<in> set (learn_calls (fst (mlpackMain L N c now)))"
  shows "n_rows (snd (snd (snd call))) = 0 \<and> n_cols (snd (snd (snd call))) = 0"
proof (cases "snd (load_labels c (input c))")
  case (Inl e)
  have *: "learn_calls (fst (mlpackMain L N c now)) = []"
    unfolding mlpackMain_learn_calls Inl by simp
  from assms(2) have False unfolding * by simp
  then show ?thesis ..
next
  case (Inr p)
  obtain raw data where p: "p = (raw, data)" by (cases p)
  have i: "snd (initial_distance (HasParam c ''normalize'') data) = Inr (eye empty_mat)"
    using assms(1) by (simp add: initial_distance_def)
  have *: "learn_calls (fst (mlpackMain L N c now)) = [] \<or>
           learn_calls (fst (mlpackMain L N c now)) =
             [(make_optimizer c, data, N raw, eye empty_mat)]"
    unfolding mlpackMain_learn_calls Inr p by (simp add: i)
  with assms(2) show ?thesis by (auto simp: eye_def empty_mat_def)
qed

text \<open>
  C1: Without \<open>normalize\<close>, on a dataset of two features, the matrix handed to
  \<^verbatim>\<open>LearnDistance\<close> has no rows and no columns: \<^verbatim>\<open>eye()\<close> is called on a
  default-constructed matrix and keeps its size.
\<close>

theorem identity_start_hands_over_empty_matrix:
  "map (\<lambda>call. case call of (opt, data, lbls, distance) \<Rightarrow>
          (n_rows data, n_rows distance, n_cols distance))
     (learn_calls (fst (mlpackMain L N identity_cli now))) = [(2, 0, 0)]"
proof -
  obtain d where l: "load_labels identity_cli (input identity_cli) =
     ([Info ''Using last column of input dataset as labels.''], Inr ([0, 1], d))" and d: "n_rows d = 2"
    using load_labels_identity_cli by blast
  have i: "initial_distance False d = ([], Inr (eye empty_mat))"
    by (simp add: initial_distance_def)
  have h: "\<not> HasParam identity_cli ''normalize''" "optimizer identity_cli = ''sgd''"
    by (simp_all add: identity_cli_def defaults_def HasParam_def)
  show ?thesis
    unfolding mlpackMain_learn_calls by (simp add: l i h d eye_def empty_mat_def)
qed

text \<open>
  The overflow threshold is large, a range is not negative, and so each diagonal element
  of the normalized start is the inverse range above.
\<close>

lemma overflow_threshold_gt_1: "1 < overflow_threshold"
proof -
  have "(2::real) ^ 971 \<le> 2 ^ 1024" by (rule power_increasing) simp_all
  moreover have "(2::real) ^ 971 = 2 * 2 ^ 970" by simp
  moreover have "(1::real) < 2 ^ 970" by (rule one_less_power) simp_all
  ultimately show ?thesis unfolding overflow_threshold_def by linarith
qed

lemma overflow_threshold_gt_10: "10 < overflow_threshold"
proof -
  have "(2::real) ^ 971 \<le> 2 ^ 1024" by (rule power_increasing) simp_all
  moreover have "(2::real) ^ 971 = 2 * 2 ^ 970" by simp
  moreover have "(2::real) ^ 4 \<le> 2 ^ 970" by (rule power_increasing) simp_all
  ultimately show ?thesis unfolding overflow_threshold_def by simp
qed

lemma feature_range_nonneg:
  assumes "0 < n_cols data"
  shows "0 \<le> feature_range data i"
proof -
  have f: "finite (elem data i ` {..<n_cols data})" by simp
  have m: "elem data i 0 \<in> elem data i ` {..<n_cols data}" using assms by simp
  have "Min (elem data i ` {..<n_cols data}) \<le> elem data i 0" using f m by (rule Min_le)
  moreover have "elem data i 0 \<le> Max (elem data i ` {..<n_cols data})" using f m by (rule Max_ge)
  ultimately show ?thesis by (simp add: feature_range_def)
qed

lemma normalized_entry:
  assumes "0 \<le> r"
  shows "one_over (if round_double r = 0 then 1 else round_double r) = inverse_range r"
proof (cases "r = 0")
  case True
  then show ?thesis using overflow_threshold_gt_1
    by (simp add: round_double_def inverse_range_def zero_double_def one_double_def)
next
  case False
  then have "0 < r" using assms by simp
  then have "0 < 1 / r" by simp
  then have n: "\<not> 1 / r \<le> - overflow_threshold" using overflow_threshold_gt_1 by linarith
  have "\<not> r \<le> - overflow_threshold" using \<open>0 < r\<close> overflow_threshold_gt_1 by linarith
  then show ?thesis using False n
    by (simp add: round_double_def inverse_range_def zero_double_def one_double_def)
qed

lemma initial_distance_normalize:
  assumes "0 < n_cols data"
  shows "initial_distance True data =
     ([Info ''Using normalized starting point for optimization.''],
      Inr (diagmat (map (\<lambda>i. inverse_range (feature_range data i)) [0..<n_rows data])))"
proof -
  have e: "one_over (if round_double (Max (elem data i ` {..<n_cols data}) -
                                      Min (elem data i ` {..<n_cols data})) = 0 then 1
                     else round_double (Max (elem data i ` {..<n_cols data}) -
                                        Min (elem data i ` {..<n_cols data}))) =
           inverse_range (feature_range data i)" for i
    using normalized_entry[OF feature_range_nonneg[OF assms, of i]]
    by (simp only: feature_range_def)
  show ?thesis using assms
    by (simp add: initial_distance_def max_dim1_def min_dim1_def Let_def map2_map_map o_def e)
qed


lemma zero_not_special: "\<not> is_nan 0" "\<not> is_inf 0"
  by (simp_all add: is_nan_def is_inf_def zero_double_def)

lemma inverse_range_not_nan: "\<not> is_nan (inverse_range r)"
  by (simp add: inverse_range_def is_nan_def)

lemma inverse_range_inf:
  "is_inf (inverse_range r) \<longleftrightarrow> r \<noteq> 0 \<and> overflow_threshold \<le> 1 / r"
proof (cases "overflow_threshold \<le> r")
  case True
  then have "1 < r" using overflow_threshold_gt_1 by linarith
  then have "1 / r < 1" by simp
  then have "\<not> overflow_threshold \<le> 1 / r" using overflow_threshold_gt_1 by linarith
  then show ?thesis using True by (simp add: inverse_range_def is_inf_def)
next
  case False
  then show ?thesis by (simp add: inverse_range_def is_inf_def)
qed

text \<open>
  C5: With \<open>normalize\<close> passed, on a dataset with at least one point, the matrix
  handed to \<^verbatim>\<open>LearnDistance\<close> is square of the dataset's dimension, zero off the
  diagonal, and its \<open>i\<close>-th diagonal element is the inverse of the range of feature
  \<open>i\<close> as \<^verbatim>\<open>double\<close> arithmetic gives it (\<open>inverse_range\<close>), where a range of exactly
  0 is replaced by 1 before the inversion and a range that overflows has the inverse 0.
  No element is NaN. An element is infinite exactly when it is the diagonal element of a feature
  whose range is not 0 and has an inverse at or beyond the overflow threshold of
  \<^verbatim>\<open>double\<close> (a range of at most about \<open>2^-1024\<close>).
\<close>

theorem normalized_start:
  assumes "HasParam c ''normalize''" and "optimizer c \<in> {''sgd'', ''lbfgs''}"
    and "snd (load_labels c (input c)) = Inr (raw, data)" and "0 < n_cols data"
  shows "\<exists>distance. learn_calls (fst (mlpackMain L N c now)) =
                       [(make_optimizer c, data, N raw, distance)] \<and>
           n_rows distance = n_rows data \<and> n_cols distance = n_rows data \<and>
           (\<forall>i<n_rows data. \<forall>j<n_rows data.
              elem distance i j = (if i = j then inverse_range (feature_range data i) else 0)) \<and>
           (\<forall>i<n_rows data. \<forall>j<n_rows data. \<not> is_nan (elem distance i j)) \<and>
           (\<forall>i<n_rows data. \<forall>j<n_rows data.
              is_inf (elem distance i j) \<longleftrightarrow>
                i = j \<and> feature_range data i \<noteq> 0 \<and>
                overflow_threshold \<le> 1 / feature_range data i)"
proof -
  let ?d = "diagmat (map (\<lambda>i. inverse_range (feature_range data i)) [0..<n_rows data])"
  have "learn_calls (fst (mlpackMain L N c now)) = [(make_optimizer c, data, N raw, ?d)]"
    unfolding mlpackMain_learn_calls using assms(1,2)
    by (simp add: assms(3) initial_distance_normalize[OF assms(4)])
  moreover have "n_rows ?d = n_rows data" "n_cols ?d = n_rows data"
    by (simp_all add: diagmat_def)
  moreover have e: "\<forall>i<n_rows data. \<forall>j<n_rows data.
              elem ?d i j = (if i = j then inverse_range (feature_range data i) else 0)"
    by (simp add: diagmat_def)
  moreover have "\<forall>i<n_rows data. \<forall>j<n_rows data. \<not> is_nan (elem ?d i j)"
    by (simp add: diagmat_def inverse_range_not_nan zero_not_special)
  moreover have "\<forall>i<n_rows data. \<forall>j<n_rows data.
              is_inf (elem ?d i j) \<longleftrightarrow>
                i = j \<and> feature_range data i \<noteq> 0 \<and>
                overflow_threshold \<le> 1 / feature_range data i"
    by (simp add: diagmat_def inverse_range_inf zero_not_special)
  ultimately show ?thesis by blast
qed

theorem normalized_start_witness:
  "HasParam normalize_cli ''normalize'' \<and>
   map (\<lambda>call. case call of (opt, data, lbls, distance) \<Rightarrow>
          (n_rows data, n_cols data, n_rows distance, n_cols distance,
           elem distance 0 0, elem distance 0 1, elem distance 1 0, elem distance 1 1))
     (learn_calls (fst (mlpackMain keep_start id normalize_cli 0))) =
   [(2, 2, 2, 2, Finite (1 / 10), Finite 0, Finite 0, Finite 1)]"
proof -
  define data where "data = \<lparr>n_rows = 2, n_cols = 2,
     elem = (\<lambda>i j. [[0, 10], [5, 5], [0, 1 :: real]] ! (if i < Suc (Suc 0) then i else i + 1) ! j)\<rparr>"
  have h: "HasParam normalize_cli ''normalize''" "optimizer normalize_cli \<in> {''sgd'', ''lbfgs''}"
    by (simp_all add: normalize_cli_def defaults_def HasParam_def)
  have l: "snd (load_labels normalize_cli (input normalize_cli)) = Inr ([0, 1], data)"
    by (simp add: load_labels_def normalize_cli_def defaults_def HasParam_def mat_of_rows_def
      Let_def size_t_of_double_simps shed_row_def upt_rec data_def)
  have n: "0 < n_cols data" "n_rows data = 2" "n_cols data = 2" by (simp_all add: data_def)
  have r: "feature_range data 0 = 10" "feature_range data 1 = 0"
    by (simp_all add: feature_range_def data_def lessThan_nat_numeral lessThan_Suc)
  have "\<not> overflow_threshold \<le> 10" "\<not> overflow_threshold \<le> 1 / 10"
    using overflow_threshold_gt_10 by simp_all
  then have v: "inverse_range 10 = Finite (1 / 10)" "inverse_range 0 = Finite 1"
    by (simp_all add: inverse_range_def)
  from normalized_start[OF h l n(1), of keep_start id 0] obtain distance where
    d: "learn_calls (fst (mlpackMain keep_start id normalize_cli 0)) =
          [(make_optimizer normalize_cli, data, id [0, 1], distance)]"
       "n_rows distance = n_rows data" "n_cols distance = n_rows data"
       "\<forall>i<n_rows data. \<forall>j<n_rows data.
              elem distance i j = (if i = j then inverse_range (feature_range data i) else 0)"
    by blast
  have "elem distance 0 0 = Finite (1 / 10)" "elem distance 0 1 = Finite 0"
    "elem distance 1 0 = Finite 0" "elem distance 1 1 = Finite 1"
    using d(4) r n(2) v by (simp_all add: zero_double_def)
  then show ?thesis using h(1) d(1,2,3) n by simp
qed

text \<open>
  A feature whose range is \<open>2^-1074\<close>: the range is not 0 and is inverted as it is, and
  the element handed to \<^verbatim>\<open>LearnDistance\<close> is an infinity.
\<close>

theorem tiny_range_start_infinite:
  "map (\<lambda>call. case call of (opt, data, lbls, distance) \<Rightarrow>
          (n_rows data, feature_range data 0, n_rows distance, n_cols distance, elem distance 0 0))
     (learn_calls (fst (mlpackMain keep_start id tiny_range_cli 0))) =
   [(1, 1 / 2 ^ 1074, 1, 1, PosInf)]"
proof -
  define data where "data = \<lparr>n_rows = 1, n_cols = 2,
     elem = (\<lambda>i j. [[0, 1 / 2 ^ 1074], [0, 1 :: real]] ! (if i < Suc 0 then i else i + 1) ! j)\<rparr>"
  have h: "HasParam tiny_range_cli ''normalize''" "optimizer tiny_range_cli \<in> {''sgd'', ''lbfgs''}"
    by (simp_all add: tiny_range_cli_def defaults_def HasParam_def)
  have l: "snd (load_labels tiny_range_cli (input tiny_range_cli)) = Inr ([0, 1], data)"
    by (simp add: load_labels_def tiny_range_cli_def defaults_def HasParam_def mat_of_rows_def
      Let_def size_t_of_double_simps shed_row_def upt_rec data_def)
  have n: "0 < n_cols data" "n_rows data = 1" by (simp_all add: data_def)
  have r: "feature_range data 0 = 1 / 2 ^ 1074"
    by (simp add: feature_range_def data_def lessThan_nat_numeral lessThan_Suc)
  have "(2::real) ^ 1024 \<le> 2 ^ 1074" by (rule power_increasing) simp_all
  then have t: "overflow_threshold \<le> 2 ^ 1074" by (simp add: overflow_threshold_def)
  have "(1::real) / 2 ^ 1074 < 1" by simp
  then have "\<not> overflow_threshold \<le> 1 / 2 ^ 1074" using overflow_threshold_gt_1 by linarith
  then have v: "inverse_range (1 / 2 ^ 1074) = PosInf"
    using t by (simp add: inverse_range_def)
  have i: "initial_distance True data =
     ([Info ''Using normalized starting point for optimization.''],
      Inr (diagmat (map (\<lambda>i. inverse_range (feature_range data i)) [0..<n_rows data])))"
    using n(1) by (rule initial_distance_normalize)
  have "learn_calls (fst (mlpackMain keep_start id tiny_range_cli 0)) =
          [(make_optimizer tiny_range_cli, data, id [0, 1],
            diagmat (map (\<lambda>i. inverse_range (feature_range data i)) [0..<n_rows data]))]"
    unfolding mlpackMain_learn_calls using h by (simp add: l i)
  then show ?thesis using n r v by (simp add: diagmat_def)
qed


subsection \<open>Labels\<close>

lemma load_labels_last_row:
  assumes "\<not> HasParam c ''labels''" and "0 < n_rows data"
  shows "load_labels c data =
     ([Info ''Using last column of input dataset as labels.''],
      Inr (map (\<lambda>i. size_t_of_double (elem data (n_rows data - 1) i)) [0..<n_cols data],
           \<lparr>n_rows = n_rows data - 1, n_cols = n_cols data,
            elem = (\<lambda>i j. elem data (if i < n_rows data - 1 then i else i + 1) j)\<rparr>))"
  using assms by (simp add: load_labels_def Let_def shed_row_def)

lemma initial_distance_returns:
  assumes "0 < n_cols data"
  shows "\<exists>msgs distance. initial_distance b data = (msgs, Inr distance)"
  using assms by (simp add: initial_distance_def max_dim1_def min_dim1_def Let_def)

text \<open>
  C7: On a run with a known optimizer and at least one point: when \<open>labels\<close> is not
  passed and the dataset has a row, the dataset handed to \<^verbatim>\<open>NCA\<close> is the input without
  its last row, there is one raw label per point, and the raw label of every point whose
  element \<open>x\<close> of the last row has \<open>-1 < x < 2^64\<close> is \<open>x\<close> truncated to an integer;
  when \<open>labels\<close> is passed with one label per point, the dataset handed to \<^verbatim>\<open>NCA\<close> is
  the input itself.
\<close>

theorem labels_from_last_row:
  assumes "optimizer c \<in> {''sgd'', ''lbfgs''}" and "0 < n_cols (input c)"
  shows "(\<not> HasParam c ''labels'' \<and> 0 < n_rows (input c) \<longrightarrow>
          (\<exists>opt data raw distance.
             learn_calls (fst (mlpackMain L N c now)) = [(opt, data, N raw, distance)] \<and>
             length raw = n_cols (input c) \<and>
             (\<forall>i<n_cols (input c).
                - 1 < elem (input c) (n_rows (input c) - 1) i \<and>
                elem (input c) (n_rows (input c) - 1) i < 2 ^ 64 \<longrightarrow>
                uint (raw ! i) = trunc (elem (input c) (n_rows (input c) - 1) i)) \<and>
             n_rows data = n_rows (input c) - 1 \<and> n_cols data = n_cols (input c) \<and>
             (\<forall>i<n_rows data. \<forall>j<n_cols data. elem data i j = elem (input c) i j))) \<and>
         (HasParam c ''labels'' \<and> length (labels c) = n_cols (input c) \<longrightarrow>
          (\<exists>opt distance.
             learn_calls (fst (mlpackMain L N c now)) = [(opt, input c, N (labels c), distance)]))"
proof (intro conjI impI)
  assume a: "\<not> HasParam c ''labels'' \<and> 0 < n_rows (input c)"
  define data where "data = \<lparr>n_rows = n_rows (input c) - 1, n_cols = n_cols (input c),
            elem = (\<lambda>i j. elem (input c) (if i < n_rows (input c) - 1 then i else i + 1) j)\<rparr>"
  define raw where
    "raw = map (\<lambda>i. size_t_of_double (elem (input c) (n_rows (input c) - 1) i))
             [0..<n_cols (input c)]"
  have l: "snd (load_labels c (input c)) = Inr (raw, data)"
    using a by (simp add: load_labels_last_row data_def raw_def)
  have "0 < n_cols data" using assms(2) by (simp add: data_def)
  then obtain msgs distance where
    i: "initial_distance (HasParam c ''normalize'') data = (msgs, Inr distance)"
    using initial_distance_returns[of data "HasParam c ''normalize''"] by auto
  have "learn_calls (fst (mlpackMain L N c now)) = [(make_optimizer c, data, N raw, distance)]"
    unfolding mlpackMain_learn_calls l using assms(1) by (simp add: i)
  moreover have "length raw = n_cols (input c)" by (simp add: raw_def)
  moreover have "\<forall>i<n_cols (input c).
                - 1 < elem (input c) (n_rows (input c) - 1) i \<and>
                elem (input c) (n_rows (input c) - 1) i < 2 ^ 64 \<longrightarrow>
                uint (raw ! i) = trunc (elem (input c) (n_rows (input c) - 1) i)"
    by (simp add: raw_def size_t_of_double_uint)
  moreover have "n_rows data = n_rows (input c) - 1" "n_cols data = n_cols (input c)"
    "\<forall>i<n_rows data. \<forall>j<n_cols data. elem data i j = elem (input c) i j"
    by (simp_all add: data_def)
  ultimately show "\<exists>opt data raw distance.
             learn_calls (fst (mlpackMain L N c now)) = [(opt, data, N raw, distance)] \<and>
             length raw = n_cols (input c) \<and>
             (\<forall>i<n_cols (input c).
                - 1 < elem (input c) (n_rows (input c) - 1) i \<and>
                elem (input c) (n_rows (input c) - 1) i < 2 ^ 64 \<longrightarrow>
                uint (raw ! i) = trunc (elem (input c) (n_rows (input c) - 1) i)) \<and>
             n_rows data = n_rows (input c) - 1 \<and> n_cols data = n_cols (input c) \<and>
             (\<forall>i<n_rows data. \<forall>j<n_cols data. elem data i j = elem (input c) i j)"
    by blast
next
  assume a: "HasParam c ''labels'' \<and> length (labels c) = n_cols (input c)"
  then have l: "snd (load_labels c (input c)) = Inr (labels c, input c)"
    by (simp add: load_labels_def)
  obtain msgs distance where
    i: "initial_distance (HasParam c ''normalize'') (input c) = (msgs, Inr distance)"
    using initial_distance_returns[of "input c" "HasParam c ''normalize''"] assms(2) by auto
  have "learn_calls (fst (mlpackMain L N c now)) =
               [(make_optimizer c, input c, N (labels c), distance)]"
    unfolding mlpackMain_learn_calls l using assms(1) by (simp add: i)
  then show "\<exists>opt distance.
             learn_calls (fst (mlpackMain L N c now)) = [(opt, input c, N (labels c), distance)]"
    by blast
qed

theorem labels_from_last_row_witness:
  "(\<exists>opt data raw distance.
      learn_calls (fst (mlpackMain keep_start id fraction_label_cli 0)) =
        [(opt, data, raw, distance)] \<and>
      map (elem (input fraction_label_cli) 2) [0, 1] = [27 / 10, 3 / 2] \<and>
      map uint raw = [2, 1] \<and>
      n_rows data = 2 \<and> n_cols data = 2 \<and> n_rows (input fraction_label_cli) = 3 \<and>
      elem data 0 0 = 1 \<and> elem data 0 1 = 2 \<and> elem data 1 0 = 3 \<and> elem data 1 1 = 4) \<and>
   (\<exists>opt distance.
      learn_calls (fst (mlpackMain keep_start id labelled_cli 0)) =
        [(opt, input labelled_cli, [7, 9], distance)] \<and> n_rows (input labelled_cli) = 2)"
proof
  let ?c = fraction_label_cli
  have h: "optimizer ?c \<in> {''sgd'', ''lbfgs''}" "0 < n_cols (input ?c)"
    "\<not> HasParam ?c ''labels''" "0 < n_rows (input ?c)"
    "n_rows (input ?c) = 3" "n_cols (input ?c) = 2"
    by (simp_all add: fraction_label_cli_def defaults_def HasParam_def mat_of_rows_def)
  have e: "elem (input ?c) 0 0 = 1" "elem (input ?c) 0 1 = 2"
    "elem (input ?c) 1 0 = 3" "elem (input ?c) 1 1 = 4"
    "elem (input ?c) 2 0 = 27 / 10" "elem (input ?c) 2 (Suc 0) = 3 / 2"
    by (simp_all add: fraction_label_cli_def defaults_def mat_of_rows_def)
  have t: "trunc (27 / 10) = 2" "trunc (3 / 2) = 1" by (simp_all add: trunc_def)
  from labels_from_last_row[OF h(1,2), of keep_start id 0] h(3,4)
  obtain opt data raw distance where
     d: "learn_calls (fst (mlpackMain keep_start id ?c 0)) = [(opt, data, id raw, distance)]"
        "length raw = n_cols (input ?c)"
        "\<forall>i<n_cols (input ?c).
                - 1 < elem (input ?c) (n_rows (input ?c) - 1) i \<and>
                elem (input ?c) (n_rows (input ?c) - 1) i < 2 ^ 64 \<longrightarrow>
                uint (raw ! i) = trunc (elem (input ?c) (n_rows (input ?c) - 1) i)"
        "n_rows data = n_rows (input ?c) - 1" "n_cols data = n_cols (input ?c)"
        "\<forall>i<n_rows data. \<forall>j<n_cols data. elem data i j = elem (input ?c) i j"
    by blast
  have "- 1 < elem (input ?c) (n_rows (input ?c) - 1) 0 \<and>
        elem (input ?c) (n_rows (input ?c) - 1) 0 < 2 ^ 64"
       "- 1 < elem (input ?c) (n_rows (input ?c) - 1) (Suc 0) \<and>
        elem (input ?c) (n_rows (input ?c) - 1) (Suc 0) < 2 ^ 64"
    by (simp_all add: h(5) e(5,6))
  moreover have "0 < n_cols (input ?c)" "Suc 0 < n_cols (input ?c)" by (simp_all add: h(6))
  ultimately have "uint (raw ! 0) = trunc (elem (input ?c) (n_rows (input ?c) - 1) 0)"
    "uint (raw ! Suc 0) = trunc (elem (input ?c) (n_rows (input ?c) - 1) (Suc 0))"
    using d(3) by blast+
  then have "uint (raw ! 0) = 2" "uint (raw ! Suc 0) = 1"
    by (simp_all add: h(5) e(5,6) t)
  moreover have "length raw = 2" using d(2) h(6) by simp
  ultimately have r: "map uint raw = [2, 1]"
    by (cases raw; cases "tl raw") (auto simp: length_Suc_conv)
  have "elem data 0 0 = 1" "elem data 0 1 = 2" "elem data 1 0 = 3" "elem data 1 1 = 4"
    using d(4,5,6) h(5,6) e(1-4) by simp_all
  then show "\<exists>opt data raw distance.
      learn_calls (fst (mlpackMain keep_start id ?c 0)) = [(opt, data, raw, distance)] \<and>
      map (elem (input ?c) 2) [0, 1] = [27 / 10, 3 / 2] \<and>
      map uint raw = [2, 1] \<and>
      n_rows data = 2 \<and> n_cols data = 2 \<and> n_rows (input ?c) = 3 \<and>
      elem data 0 0 = 1 \<and> elem data 0 1 = 2 \<and> elem data 1 0 = 3 \<and> elem data 1 1 = 4"
    using d(1,4,5) h(5,6) e(5,6) r by simp
next
  have h: "optimizer labelled_cli \<in> {''sgd'', ''lbfgs''}" "0 < n_cols (input labelled_cli)"
    "HasParam labelled_cli ''labels''" "length (labels labelled_cli) = n_cols (input labelled_cli)"
    "n_rows (input labelled_cli) = 2" "labels labelled_cli = [7, 9]"
    by (simp_all add: labelled_cli_def defaults_def HasParam_def mat_of_rows_def)
  from labels_from_last_row[OF h(1,2), of keep_start id 0] h(3,4)
  have "\<exists>opt distance.
             learn_calls (fst (mlpackMain keep_start id labelled_cli 0)) =
               [(opt, input labelled_cli, id (labels labelled_cli), distance)]"
    by blast
  then show "\<exists>opt distance.
      learn_calls (fst (mlpackMain keep_start id labelled_cli 0)) =
        [(opt, input labelled_cli, [7, 9], distance)] \<and> n_rows (input labelled_cli) = 2"
    using h(5,6) by simp
qed

text \<open>
  A last row with the element \<open>-1\<close>: its truncation is \<open>-1\<close>, and the label handed to
  \<^verbatim>\<open>NCA\<close> is \<open>2^64 - 1\<close>.
\<close>

theorem negative_label_wraps:
  "map (\<lambda>call. case call of (opt, data, lbls, distance) \<Rightarrow> (n_rows data, map uint lbls))
     (learn_calls (fst (mlpackMain keep_start id negative_label_cli 0))) =
   [(1, [18446744073709551615, 0])] \<and>
   map (\<lambda>i. trunc (elem (input negative_label_cli) 1 i)) [0, 1] = [- 1, 0]"
proof
  let ?c = negative_label_cli
  have m: "size_t_of_double (- 1) = 18446744073709551615"
    by (simp add: size_t_of_double_def cvttsd2si_def trunc_def ceiling_minus)
  have l: "\<exists>d. load_labels ?c (input ?c) =
     ([Info ''Using last column of input dataset as labels.''],
      Inr ([18446744073709551615, 0], d)) \<and> n_rows d = 1"
    by (simp add: load_labels_def negative_label_cli_def defaults_def HasParam_def mat_of_rows_def
      Let_def size_t_of_double_simps m shed_row_def upt_rec)
  then obtain d where l: "load_labels ?c (input ?c) =
     ([Info ''Using last column of input dataset as labels.''],
      Inr ([18446744073709551615, 0], d))" and d: "n_rows d = 1"
    by blast
  have i: "initial_distance False d = ([], Inr (eye empty_mat))"
    by (simp add: initial_distance_def)
  have h: "\<not> HasParam ?c ''normalize''" "optimizer ?c = ''sgd''"
    by (simp_all add: negative_label_cli_def defaults_def HasParam_def)
  show "map (\<lambda>call. case call of (opt, data, lbls, distance) \<Rightarrow> (n_rows data, map uint lbls))
     (learn_calls (fst (mlpackMain keep_start id ?c 0))) = [(1, [18446744073709551615, 0])]"
    unfolding mlpackMain_learn_calls by (simp add: l i h d)
  show "map (\<lambda>i. trunc (elem (input ?c) 1 i)) [0, 1] = [- 1, 0]"
    by (simp add: negative_label_cli_def defaults_def mat_of_rows_def trunc_def ceiling_minus)
qed

section \<open>Properties of PCA whitening\<close>

subsection \<open>Sums, centring and the covariance matrix\<close>

lemma meets_contractD:
  "meets_contract eig_sym inp \<Longrightarrow> centre inp = Inr (mean, xc) \<Longrightarrow>
   is_eig_sym (ColumnCovariance xc) (eig_sym (ColumnCovariance xc))"
  by (simp add: meets_contract_def)

lemma meets_contractI:
  assumes "\<And>mean xc. centre inp = Inr (mean, xc) \<Longrightarrow>
             is_eig_sym (ColumnCovariance xc) (eig_sym (ColumnCovariance xc))"
  shows "meets_contract eig_sym inp"
  using assms by (auto simp: meets_contract_def split: sum.splits)

lemma invertsD:
  "inverts inverse_of A \<Longrightarrow> \<exists>B. inverse_of A = Inr B \<and> is_inverse A B"
  by (auto simp: inverts_def split: sum.splits)

lemma sum_quadratic:
  fixes y :: "nat \<Rightarrow> nat \<Rightarrow> real"
  shows "(\<Sum>k<n. (\<Sum>a<d. u a * y a k) * (\<Sum>b<d. w b * y b k)) =
         (\<Sum>a<d. \<Sum>b<d. u a * w b * (\<Sum>k<n. y a k * y b k))"
proof -
  have "(\<Sum>k<n. (\<Sum>a<d. u a * y a k) * (\<Sum>b<d. w b * y b k)) =
        (\<Sum>k<n. \<Sum>a<d. \<Sum>b<d. u a * w b * (y a k * y b k))"
    by (simp add: sum_product mult_ac)
  also have "\<dots> = (\<Sum>a<d. \<Sum>k<n. \<Sum>b<d. u a * w b * (y a k * y b k))"
    by (rule sum.swap)
  also have "\<dots> = (\<Sum>a<d. \<Sum>b<d. \<Sum>k<n. u a * w b * (y a k * y b k))"
    by (rule sum.cong[OF refl]) (rule sum.swap)
  also have "\<dots> = (\<Sum>a<d. \<Sum>b<d. u a * w b * (\<Sum>k<n. y a k * y b k))"
    by (simp add: sum_distrib_left)
  finally show ?thesis .
qed

lemma sum_delta_left:
  fixes f :: "nat \<Rightarrow> real"
  assumes "i < n"
  shows "(\<Sum>l<n. (if i = l then c else 0) * f l) = c * f i"
proof -
  have "(\<Sum>l<n. (if i = l then c else 0) * f l) = (\<Sum>l<n. if l = i then c * f l else 0)"
    by (rule sum.cong) auto
  also have "\<dots> = c * f i" using assms by (simp add: sum.delta)
  finally show ?thesis .
qed

lemma centre_Inr:
  assumes "centre inp = Inr (mean, xc)"
  shows "n_rows xc = n_rows inp" and "n_cols xc = n_cols inp"
    and "0 < n_cols inp \<or> n_rows inp = 0"
    and "length mean = n_rows inp"
    and "\<And>i. i < n_rows inp \<Longrightarrow> mean ! i = (\<Sum>j<n_cols inp. elem inp i j) / real (n_cols inp)"
    and "\<And>i j. elem xc i j = elem inp i j - mean ! i"
  using assms
  by (auto simp: centre_def mean_dim1_def each_col_minus_def split: if_splits sum.splits)

lemma centre_returns:
  assumes "0 < n_cols inp \<or> n_rows inp = 0"
  shows "\<exists>mean xc. centre inp = Inr (mean, xc)"
  using assms by (auto simp: centre_def mean_dim1_def each_col_minus_def)

lemma centred_row_sum:
  assumes "centre inp = Inr (mean, xc)" and "i < n_rows inp"
  shows "(\<Sum>k<n_cols inp. elem xc i k) = 0"
proof -
  have n: "0 < n_cols inp" using centre_Inr(3)[OF assms(1)] assms(2) by auto
  have "(\<Sum>k<n_cols inp. elem xc i k) =
        (\<Sum>k<n_cols inp. elem inp i k) - real (n_cols inp) * mean ! i"
    by (simp add: centre_Inr(6)[OF assms(1)] sum_subtractf)
  also have "\<dots> = 0" using n by (simp add: centre_Inr(5)[OF assms])
  finally show ?thesis .
qed

lemma ColumnCovariance_dims [simp]:
  "n_rows (ColumnCovariance x) = n_rows x" "n_cols (ColumnCovariance x) = n_rows x"
  by (simp_all add: ColumnCovariance_def Let_def)

lemma ColumnCovariance_elem:
  "elem (ColumnCovariance x) i j =
     (\<Sum>k<n_cols x. (elem x i k - (\<Sum>k<n_cols x. elem x i k) / real (n_cols x)) *
                       (elem x j k - (\<Sum>k<n_cols x. elem x j k) / real (n_cols x))) /
     (if 1 < n_cols x then real (n_cols x - 1) else 1)"
  by (simp add: ColumnCovariance_def Let_def)

lemma ColumnCovariance_centred:
  assumes "centre inp = Inr (mean, xc)" and "i < n_rows inp" and "j < n_rows inp"
  shows "elem (ColumnCovariance xc) i j =
           (\<Sum>k<n_cols inp. elem xc i k * elem xc j k) /
           (if 1 < n_cols inp then real (n_cols inp - 1) else 1)"
  by (simp add: ColumnCovariance_elem centre_Inr(2)[OF assms(1)]
      centred_row_sum[OF assms(1,2)] centred_row_sum[OF assms(1,3)])

lemma ColumnCovariance_centre_same:
  assumes "centre inp = Inr (mean, xc)" and "i < n_rows inp" and "j < n_rows inp"
  shows "elem (ColumnCovariance xc) i j = elem (ColumnCovariance inp) i j"
  by (simp add: ColumnCovariance_centred[OF assms] ColumnCovariance_elem[of inp]
      centre_Inr(6)[OF assms(1)] centre_Inr(5)[OF assms(1,2)] centre_Inr(5)[OF assms(1,3)])

lemma ColumnCovariance_psd:
  "0 \<le> (\<Sum>a<n_rows x. \<Sum>b<n_rows x. u a * u b * elem (ColumnCovariance x) a b)"
proof -
  define nv :: real where "nv = (if 1 < n_cols x then real (n_cols x - 1) else 1)"
  define y where "y a k = elem x a k - (\<Sum>k<n_cols x. elem x a k) / real (n_cols x)" for a k
  have nv: "0 < nv" by (simp add: nv_def)
  define S where "S a b = (\<Sum>k<n_cols x. y a k * y b k)" for a b
  have e: "elem (ColumnCovariance x) a b = S a b / nv" for a b
    unfolding ColumnCovariance_elem y_def nv_def S_def ..
  have "(\<Sum>a<n_rows x. \<Sum>b<n_rows x. u a * u b * elem (ColumnCovariance x) a b) =
        (\<Sum>a<n_rows x. \<Sum>b<n_rows x. (u a * u b * S a b) / nv)"
    unfolding e by simp
  also have "\<dots> = (\<Sum>a<n_rows x. \<Sum>b<n_rows x. u a * u b * S a b) / nv"
    by (simp only: sum_divide_distrib)
  also have "\<dots> = (\<Sum>a<n_rows x. \<Sum>b<n_rows x. u a * u b * (\<Sum>k<n_cols x. y a k * y b k)) / nv"
    unfolding S_def ..
  also have "\<dots> = (\<Sum>k<n_cols x. (\<Sum>a<n_rows x. u a * y a k) * (\<Sum>b<n_rows x. u b * y b k)) / nv"
    by (simp add: sum_quadratic)
  also have "\<dots> \<ge> 0" using nv by (intro divide_nonneg_pos sum_nonneg) simp_all
  finally show ?thesis .
qed

subsection \<open>Eigenvalues of the covariance matrix\<close>

lemma eigenvalue_nonneg:
  assumes "is_eig_sym (ColumnCovariance x) (eigval, eigvec)" and "j < n_rows x"
  shows "0 \<le> eigval ! j"
proof -
  let ?C = "ColumnCovariance x" and ?d = "n_rows x"
  have unit: "(\<Sum>a<?d. elem eigvec a j * elem eigvec a j) = 1"
    and eig: "\<And>a. a < ?d \<Longrightarrow> (\<Sum>b<?d. elem ?C a b * elem eigvec b j) = eigval ! j * elem eigvec a j"
    using assms by (simp_all add: is_eig_sym_def)
  have "eigval ! j = (\<Sum>a<?d. elem eigvec a j * (eigval ! j * elem eigvec a j))"
    using unit by (simp add: sum_distrib_left[symmetric] mult.left_commute)
  also have "\<dots> = (\<Sum>a<?d. elem eigvec a j * (\<Sum>b<?d. elem ?C a b * elem eigvec b j))"
    by (simp add: eig)
  also have "\<dots> = (\<Sum>a<?d. \<Sum>b<?d. elem eigvec a j * elem eigvec b j * elem ?C a b)"
    by (simp add: sum_distrib_left mult_ac)
  also have "\<dots> \<ge> 0" by (rule ColumnCovariance_psd)
  finally show ?thesis .
qed

lemma eigenvalue_nonzero:
  assumes c: "centre inp = Inr (mean, xc)"
    and e: "is_eig_sym (ColumnCovariance xc) (eigval, eigvec)"
    and f: "full_rank (ColumnCovariance inp)" and j: "j < n_rows inp"
  shows "eigval ! j \<noteq> 0"
proof
  assume z: "eigval ! j = 0"
  let ?d = "n_rows inp"
  have d: "n_rows xc = ?d" by (rule centre_Inr(1)[OF c])
  have unit: "(\<Sum>a<?d. elem eigvec a j * elem eigvec a j) = 1"
    and eig: "\<And>a. a < ?d \<Longrightarrow>
      (\<Sum>b<?d. elem (ColumnCovariance xc) a b * elem eigvec b j) = eigval ! j * elem eigvec a j"
    using e j d by (simp_all add: is_eig_sym_def)
  have "\<forall>i<n_rows (ColumnCovariance inp).
          (\<Sum>b<n_cols (ColumnCovariance inp). elem (ColumnCovariance inp) i b * elem eigvec b j) = 0"
  proof (intro allI impI)
    fix i assume "i < n_rows (ColumnCovariance inp)"
    then have i: "i < ?d" by simp
    have "(\<Sum>b<?d. elem (ColumnCovariance inp) i b * elem eigvec b j) =
          (\<Sum>b<?d. elem (ColumnCovariance xc) i b * elem eigvec b j)"
      by (rule sum.cong) (simp_all add: ColumnCovariance_centre_same[OF c i])
    then show "(\<Sum>b<n_cols (ColumnCovariance inp). elem (ColumnCovariance inp) i b * elem eigvec b j) = 0"
      using eig[OF i] z by simp
  qed
  moreover from f have "(\<forall>i<n_rows (ColumnCovariance inp).
          (\<Sum>b<n_cols (ColumnCovariance inp). elem (ColumnCovariance inp) i b * elem eigvec b j) = 0)
        \<longrightarrow> (\<forall>b<n_cols (ColumnCovariance inp). elem eigvec b j = 0)"
    unfolding full_rank_def by (rule spec)
  ultimately have "\<forall>b<?d. elem eigvec b j = 0"
    by simp
  then have "(\<Sum>a<?d. elem eigvec a j * elem eigvec a j) = 0" by simp
  with unit show False by simp
qed

lemma full_rank_has_points:
  assumes "full_rank (ColumnCovariance inp)"
  shows "0 < n_cols inp \<or> n_rows inp = 0"
proof (rule ccontr)
  assume "\<not> (0 < n_cols inp \<or> n_rows inp = 0)"
  then have n: "n_cols inp = 0" and d: "0 < n_rows inp" by auto
  have "\<forall>i<n_rows (ColumnCovariance inp).
          (\<Sum>b<n_cols (ColumnCovariance inp). elem (ColumnCovariance inp) i b * (\<lambda>_. 1) b) = 0"
    by (simp add: ColumnCovariance_elem n)
  moreover from assms have "(\<forall>i<n_rows (ColumnCovariance inp).
          (\<Sum>b<n_cols (ColumnCovariance inp). elem (ColumnCovariance inp) i b * (\<lambda>_. 1) b) = 0)
        \<longrightarrow> (\<forall>b<n_cols (ColumnCovariance inp). (\<lambda>_. 1::real) b = 0)"
    unfolding full_rank_def by (rule spec)
  ultimately have "\<forall>b<n_cols (ColumnCovariance inp). (\<lambda>_. 1::real) b = 0"
    by (rule rev_mp)
  with d show False by simp
qed

lemma whitened_gram:
  assumes c: "centre inp = Inr (mean, xc)"
    and e: "is_eig_sym (ColumnCovariance xc) (eigval, eigvec)"
    and i: "i < n_rows inp" and j: "j < n_rows inp"
  shows "(\<Sum>k<n_cols inp. (\<Sum>a<n_rows inp. elem eigvec a i * elem xc a k) *
                            (\<Sum>b<n_rows inp. elem eigvec b j * elem xc b k)) /
         (if 1 < n_cols inp then real (n_cols inp - 1) else 1) =
         (if i = j then eigval ! j else 0)"
proof -
  let ?d = "n_rows inp" and ?n = "n_cols inp"
  define nv :: real where "nv = (if 1 < ?n then real (?n - 1) else 1)"
  define S where "S a b = (\<Sum>k<?n. elem xc a k * elem xc b k)" for a b
  define C where "C = elem (ColumnCovariance xc)"
  define V where "V = elem eigvec"
  have d: "n_rows xc = ?d" by (rule centre_Inr(1)[OF c])
  have orth: "(\<Sum>a<?d. V a i * V a j) = (if i = j then 1 else 0)"
    and eig: "\<And>a. a < ?d \<Longrightarrow> (\<Sum>b<?d. C a b * V b j) = eigval ! j * V a j"
    using e i j d by (simp_all add: is_eig_sym_def C_def V_def)
  have CS: "C a b = S a b / nv" if "a < ?d" "b < ?d" for a b
    unfolding C_def S_def nv_def by (rule ColumnCovariance_centred[OF c that])
  have "(\<Sum>k<?n. (\<Sum>a<?d. V a i * elem xc a k) * (\<Sum>b<?d. V b j * elem xc b k)) / nv =
        (\<Sum>a<?d. \<Sum>b<?d. V a i * V b j * S a b) / nv"
    unfolding S_def by (simp only: sum_quadratic)
  also have "\<dots> = (\<Sum>a<?d. \<Sum>b<?d. (V a i * V b j * S a b) / nv)"
    by (simp only: sum_divide_distrib)
  also have "\<dots> = (\<Sum>a<?d. \<Sum>b<?d. V a i * (C a b * V b j))"
    by (intro sum.cong refl) (simp add: CS)
  also have "\<dots> = (\<Sum>a<?d. V a i * (\<Sum>b<?d. C a b * V b j))"
    by (simp only: sum_distrib_left)
  also have "\<dots> = (\<Sum>a<?d. V a i * (eigval ! j * V a j))"
    by (intro sum.cong refl) (simp add: eig)
  also have "\<dots> = eigval ! j * (\<Sum>a<?d. V a i * V a j)"
    by (simp add: sum_distrib_left mult.left_commute)
  also have "\<dots> = (if i = j then eigval ! j else 0)"
    by (simp add: orth)
  finally show ?thesis unfolding nv_def V_def .
qed

lemma whitened_rows:
  assumes c: "centre inp = Inr (mean, xc)" and i: "i < n_rows inp"
  shows "(\<Sum>k<n_cols inp. (\<Sum>a<n_rows inp. V a i * elem xc a k) / s) = 0"
proof -
  have "(\<Sum>k<n_cols inp. (\<Sum>a<n_rows inp. V a i * elem xc a k) / s) =
        (\<Sum>k<n_cols inp. \<Sum>a<n_rows inp. V a i * elem xc a k) / s"
    by (simp only: sum_divide_distrib)
  also have "(\<Sum>k<n_cols inp. \<Sum>a<n_rows inp. V a i * elem xc a k) =
             (\<Sum>a<n_rows inp. \<Sum>k<n_cols inp. V a i * elem xc a k)"
    by (rule sum.swap)
  also have "\<dots> = (\<Sum>a<n_rows inp. V a i * (\<Sum>k<n_cols inp. elem xc a k))"
    by (simp only: sum_distrib_left)
  also have "\<dots> = 0"
    by (simp add: centred_row_sum[OF c])
  finally show ?thesis by simp
qed

subsection \<open>What Transform computes\<close>

lemma Transform_Inr:
  assumes c: "centre inp = Inr (mean, xc)"
    and e: "eig_sym (ColumnCovariance xc) = (eigval, eigvec)"
    and d: "length eigval = n_rows inp" "n_rows eigvec = n_rows inp" "n_cols eigvec = n_rows inp"
  shows "\<exists>out. Transform eig_sym self inp =
           Inr (self\<lparr>itemMean := mean, eigenVectors := eigvec,
                     eigenValues := map (\<lambda>v. v + epsilon self) eigval\<rparr>, out) \<and>
           n_rows out = n_rows inp \<and> n_cols out = n_cols inp \<and>
           (\<forall>i<n_rows inp. \<forall>j.
              elem out i j =
                (\<Sum>a<n_rows inp. elem eigvec a i * elem xc a j) / sqrt (eigval ! i + epsilon self))"
proof -
  let ?D = "n_rows inp"
  let ?vals = "map (\<lambda>v. v + epsilon self) eigval"
  let ?m = "\<lparr>n_rows = ?D, n_cols = ?D,
            elem = (\<lambda>i j. \<Sum>k<?D. elem (diagmat (map (\<lambda>v. 1 / sqrt v) ?vals)) i k *
                                   elem (mat_t eigvec) k j)\<rparr>"
  let ?out = "\<lparr>n_rows = ?D, n_cols = n_cols inp,
            elem = (\<lambda>i j. \<Sum>k<?D. elem ?m i k * elem xc k j)\<rparr>"
  have m: "mat_times (diagmat (map (\<lambda>v. 1 / sqrt v) ?vals)) (mat_t eigvec) = Inr ?m"
    using d by (simp add: mat_times_def diagmat_def mat_t_def)
  have o: "mat_times ?m xc = Inr ?out"
    using centre_Inr(1,2)[OF c] by (simp add: mat_times_def)
  have t: "Transform eig_sym self inp =
           Inr (self\<lparr>itemMean := mean, eigenVectors := eigvec, eigenValues := ?vals\<rparr>, ?out)"
    unfolding Transform_def by (simp only: c e Let_def m o sum.case prod.case)
  have el: "elem ?out i j =
      (\<Sum>a<?D. elem eigvec a i * elem xc a j) / sqrt (eigval ! i + epsilon self)"
    if i: "i < ?D" for i j
  proof -
    have "elem ?m i k = (1 / sqrt (eigval ! i + epsilon self)) * elem eigvec k i" for k
      using i d(1) by (simp add: diagmat_def mat_t_def sum_delta_left)
    then have "elem ?out i j =
        (\<Sum>a<?D. (1 / sqrt (eigval ! i + epsilon self)) * (elem eigvec a i * elem xc a j))"
      by (simp add: mult.assoc)
    also have "\<dots> = (\<Sum>a<?D. elem eigvec a i * elem xc a j) / sqrt (eigval ! i + epsilon self)"
      by (simp only: sum_distrib_left[symmetric]) simp
    finally show ?thesis .
  qed
  show ?thesis using t el by (intro exI[of _ ?out]) simp
qed

subsection \<open>Evaluation on the concrete datasets\<close>

lemma sum_2: "(\<Sum>k<(2::nat). f k) = f 0 + f 1"
  by (simp add: numeral_2_eq_2)


lemma sum_5: "(\<Sum>k<(5::nat). f k) = f 0 + f 1 + f 2 + f 3 + f 4"
  by (simp add: eval_nat_numeral)

lemma all_less_2: "(\<forall>i<(2::nat). P i) \<longleftrightarrow> P 0 \<and> P 1"
  by (auto simp: numeral_2_eq_2 less_Suc_eq)

lemma sqrt_25: "sqrt 25 = 5" by (rule real_sqrt_unique) simp_all

lemma sqrt_100: "sqrt 100 = 10" by (rule real_sqrt_unique) simp_all

lemma X0_dims: "n_rows X0 = 2" "n_cols X0 = 5"
  by (simp_all add: X0_def mat_of_rows_def)

lemma ColumnCovariance_X0:
  "elem (ColumnCovariance X0) 0 0 = 73" "elem (ColumnCovariance X0) 0 (Suc 0) = - 36"
  "elem (ColumnCovariance X0) (Suc 0) 0 = - 36" "elem (ColumnCovariance X0) (Suc 0) (Suc 0) = 52"
  by (simp_all add: ColumnCovariance_elem X0_def mat_of_rows_def sum_5)

lemma full_rank_X0: "full_rank (ColumnCovariance X0)"
  unfolding full_rank_def
proof (rule allI, rule impI)
  fix x :: "nat \<Rightarrow> real"
  assume "\<forall>i<n_rows (ColumnCovariance X0).
            (\<Sum>j<n_cols (ColumnCovariance X0). elem (ColumnCovariance X0) i j * x j) = 0"
  then have "73 * x 0 - 36 * x 1 = 0" "- 36 * x 0 + 52 * x 1 = 0"
    by (simp_all add: X0_dims all_less_2 sum_2 ColumnCovariance_X0)
  then have "x 0 = 0 \<and> x 1 = 0" by algebra
  then show "\<forall>j<n_cols (ColumnCovariance X0). x j = 0"
    by (simp add: X0_dims all_less_2)
qed

lemma meets_contract_X0: "meets_contract eig0 X0"
proof (rule meets_contractI)
  fix mean xc assume c: "centre X0 = Inr (mean, xc)"
  have d: "n_rows xc = 2" using centre_Inr(1)[OF c] by (simp add: X0_dims)
  have cov: "elem (ColumnCovariance xc) 0 0 = 73" "elem (ColumnCovariance xc) 0 (Suc 0) = - 36"
    "elem (ColumnCovariance xc) (Suc 0) 0 = - 36" "elem (ColumnCovariance xc) (Suc 0) (Suc 0) = 52"
    by (simp_all add: ColumnCovariance_centre_same[OF c] X0_dims ColumnCovariance_X0)
  show "is_eig_sym (ColumnCovariance xc) (eig0 (ColumnCovariance xc))"
    by (simp add: is_eig_sym_def eig0_def d all_less_2 sum_2 cov V0_def mat_of_rows_def)
qed

lemma centre_X0: "\<exists>xc. centre X0 = Inr ([0, 0], xc) \<and> (\<forall>i j. elem xc i j = elem X0 i j - [0, 0] ! i)"
  by (simp add: centre_def mean_dim1_def each_col_minus_def X0_def mat_of_rows_def sum_5 upt_rec)





subsection \<open>The denominators\<close>



subsection \<open>Whitening\<close>

text \<open>
  C6: With the regularization parameter 0, an input whose covariance matrix has full
  rank and an eigensolver that meets its contract, \<^verbatim>\<open>Transform\<close> returns an output whose
  covariance matrix is the identity and whose feature means are all 0.
\<close>

theorem Transform_whitens:
  assumes "epsilon self = 0" and "full_rank (ColumnCovariance inp)"
    and "meets_contract eig_sym inp"
  shows "\<exists>self' out. Transform eig_sym self inp = Inr (self', out) \<and>
           mat_eq (ColumnCovariance out) (identity (n_rows inp)) \<and>
           mean_dim1 out = Inr (replicate (n_rows inp) 0)"
proof -
  let ?d = "n_rows inp" and ?n = "n_cols inp"
  have pts: "0 < ?n \<or> ?d = 0" by (rule full_rank_has_points[OF assms(2)])
  then obtain mean xc where c: "centre inp = Inr (mean, xc)"
    using centre_returns by blast
  obtain eigval eigvec where e: "eig_sym (ColumnCovariance xc) = (eigval, eigvec)"
    by (cases "eig_sym (ColumnCovariance xc)")
  have k: "is_eig_sym (ColumnCovariance xc) (eigval, eigvec)"
    using meets_contractD[OF assms(3) c] e by simp
  have d: "n_rows xc = ?d" by (rule centre_Inr(1)[OF c])
  have dims: "length eigval = ?d" "n_rows eigvec = ?d" "n_cols eigvec = ?d"
    using k d by (simp_all add: is_eig_sym_def)
  define A where "A i k = (\<Sum>a<?d. elem eigvec a i * elem xc a k)" for i k
  define s where "s i = sqrt (eigval ! i)" for i
  from Transform_Inr[where eig_sym = eig_sym and self = self, OF c e dims] obtain self' out where
    t: "Transform eig_sym self inp = Inr (self', out)"
    and od: "n_rows out = ?d" "n_cols out = ?n"
    and el: "\<And>i j. i < ?d \<Longrightarrow> elem out i j = A i j / s i"
    unfolding A_def s_def using assms(1) by auto
  have pos: "0 < eigval ! i" if "i < ?d" for i
    using eigenvalue_nonneg[OF k, of i] eigenvalue_nonzero[OF c k assms(2) that] that d
    by simp
  have rows: "(\<Sum>k<?n. elem out i k) = 0" if "i < ?d" for i
    using whitened_rows[OF c that, of "elem eigvec" "s i"] el[OF that] by (simp add: A_def)
  have "mean_dim1 out = Inr (map (\<lambda>i. 0) [0..<?d])"
    using pts od by (auto simp: mean_dim1_def rows)
  then have m: "mean_dim1 out = Inr (replicate ?d 0)"
    by (simp add: map_replicate_const)
  have cov: "elem (ColumnCovariance out) i j = (if i = j then 1 else 0)"
    if i: "i < ?d" and j: "j < ?d" for i j
  proof -
    let ?nv = "if 1 < ?n then real (?n - 1) else 1"
    have r: "(\<Sum>k<?n. A i k / s i) = 0" "(\<Sum>k<?n. A j k / s j) = 0"
      using rows[OF i] rows[OF j] by (simp_all add: el[OF i] el[OF j])
    have "elem (ColumnCovariance out) i j = (\<Sum>k<?n. (A i k / s i) * (A j k / s j)) / ?nv"
      by (simp add: ColumnCovariance_elem od el[OF i] el[OF j] r)
    also have "\<dots> = (\<Sum>k<?n. (A i k * A j k) / (s i * s j)) / ?nv"
      by simp
    also have "\<dots> = ((\<Sum>k<?n. A i k * A j k) / ?nv) / (s i * s j)"
      by (simp only: sum_divide_distrib[symmetric] divide_divide_eq_left mult.commute)
    also have "(\<Sum>k<?n. A i k * A j k) / ?nv = (if i = j then eigval ! j else 0)"
      unfolding A_def by (rule whitened_gram[OF c k i j])
    also have "(if i = j then eigval ! j else 0) / (s i * s j) = (if i = j then 1 else 0)"
      using pos[OF j] by (simp add: s_def)
    finally show ?thesis .
  qed
  have "mat_eq (ColumnCovariance out) (identity ?d)"
    by (simp add: mat_eq_def identity_def od cov)
  with t m show ?thesis by blast
qed

theorem Transform_whitens_witness:
  "epsilon (new_PcaWhitening 0) = 0 \<and> full_rank (ColumnCovariance X0) \<and> meets_contract eig0 X0 \<and>
   (\<exists>self' out. Transform eig0 (new_PcaWhitening 0) X0 = Inr (self', out) \<and>
      elem (ColumnCovariance out) 0 0 = 1 \<and> elem (ColumnCovariance out) 0 1 = 0 \<and>
      elem (ColumnCovariance out) 1 0 = 0 \<and> elem (ColumnCovariance out) 1 1 = 1 \<and>
      mean_dim1 out = Inr [0, 0])"
proof -
  have e: "epsilon (new_PcaWhitening 0) = 0" by (simp add: new_PcaWhitening_def)
  from Transform_whitens[OF e full_rank_X0 meets_contract_X0] obtain self' out where
    t: "Transform eig0 (new_PcaWhitening 0) X0 = Inr (self', out)"
    and c: "mat_eq (ColumnCovariance out) (identity (n_rows X0))"
    and m: "mean_dim1 out = Inr (replicate (n_rows X0) 0)"
    by blast
  have "elem (ColumnCovariance out) 0 0 = 1 \<and> elem (ColumnCovariance out) 0 1 = 0 \<and>
      elem (ColumnCovariance out) 1 0 = 0 \<and> elem (ColumnCovariance out) 1 1 = 1"
    using c by (simp add: mat_eq_def identity_def X0_dims all_less_2)
  moreover have "mean_dim1 out = Inr [0, 0]"
    using m by (simp add: X0_dims numeral_2_eq_2)
  ultimately show ?thesis using e full_rank_X0 meets_contract_X0 t by blast
qed

subsection \<open>The round trip\<close>

text \<open>
  The round trip on \<open>X0\<close> with the eigendecomposition \<open>eig0\<close>: the first element comes
  back as -1.
\<close>

lemma round_trip_changes_input:
  "\<exists>self' out back.
     Transform eig0 (new_PcaWhitening 0) X0 = Inr (self', out) \<and>
     InverseTransform inv0 self' out = Inr back \<and>
     elem back 0 0 = - 1 \<and> elem X0 0 0 = - 5"
proof -
  obtain xc where c: "centre X0 = Inr ([0, 0], xc)"
    and xc: "\<And>i j. elem xc i j = elem X0 i j - [0, 0] ! i"
    using centre_X0 by blast
  have e: "eig0 (ColumnCovariance xc) = ([25, 100], V0)" by (simp add: eig0_def)
  have d: "length [25, 100 :: real] = n_rows X0" "n_rows V0 = n_rows X0" "n_cols V0 = n_rows X0"
    by (simp_all add: X0_dims V0_def mat_of_rows_def)
  let ?self = "(new_PcaWhitening 0)\<lparr>itemMean := [0, 0], eigenVectors := V0,
                 eigenValues := map (\<lambda>v. v + epsilon (new_PcaWhitening 0)) [25, 100]\<rparr>"
  from Transform_Inr[where eig_sym = eig0 and self = "new_PcaWhitening 0", OF c e d]
  obtain out where t: "Transform eig0 (new_PcaWhitening 0) X0 = Inr (?self, out)"
    and od: "n_rows out = 2" "n_cols out = 5"
    and el: "\<And>i j. i < 2 \<Longrightarrow> elem out i j =
              (\<Sum>a<2. elem V0 a i * elem xc a j) /
              sqrt ([25, 100] ! i + epsilon (new_PcaWhitening 0))"
    by (auto simp: X0_dims)
  have o: "elem out 0 0 = 1" "elem out (Suc 0) 0 = 1"
    using el[of 0 0] el[of 1 0]
    by (simp_all add: xc sum_2 new_PcaWhitening_def V0_def X0_def mat_of_rows_def
        sqrt_25 sqrt_100)
  have "\<exists>back. InverseTransform inv0 ?self out = Inr back \<and> elem back 0 0 = - 1"
    by (simp add: InverseTransform_def inv0_def mat_times_def diagmat_def mat_t_def
        each_col_plus_def od sum_2 o new_PcaWhitening_def V0_def mat_of_rows_def sqrt_25 sqrt_100)
  moreover have "elem X0 0 0 = - 5" by (simp add: X0_def mat_of_rows_def)
  ultimately show ?thesis using t by blast
qed

lemma X0_elems:
  "elem X0 0 0 = - 5" "elem X0 0 (Suc 0) = 11" "elem X0 (Suc 0) 0 = 10" "elem X0 (Suc 0) (Suc 0) = - 2"
  by (simp_all add: X0_def mat_of_rows_def)

lemma unscale_left:
  fixes s0 s1 :: real
  assumes "0 < s0" and "0 < s1"
  shows "s0 * (a * (p / s0) + b * (q / s1)) = x \<longleftrightarrow> s1 * (a * p) + s0 * (b * q) = x * s1"
proof -
  have 1: "s0 * (a * (p / s0) + b * (q / s1)) = (s1 * (a * p) + s0 * (b * q)) / s1"
    using assms by (simp add: field_simps)
  show ?thesis unfolding 1 using assms by (simp add: divide_eq_eq)
qed

lemma unscale_right:
  fixes s0 s1 :: real
  assumes "0 < s0" and "0 < s1"
  shows "s1 * (a * (p / s0) + b * (q / s1)) = x \<longleftrightarrow> s1 * (a * p) + s0 * (b * q) = x * s0"
proof -
  have 1: "s1 * (a * (p / s0) + b * (q / s1)) = (s1 * (a * p) + s0 * (b * q)) / s0"
    using assms by (simp add: field_simps)
  show ?thesis unfolding 1 using assms by (simp add: divide_eq_eq)
qed

lemma round_trip_differs:
  assumes k: "meets_contract eig_sym X0" and eps: "epsilon self = 0"
    and t: "Transform eig_sym self X0 = Inr (self', out)"
    and inv: "inverts inverse_of (mat_t (eigenVectors self'))"
    and b: "InverseTransform inverse_of self' out = Inr back"
  shows "\<not> mat_eq back X0"
proof
  assume eq: "mat_eq back X0"
  obtain xc where c: "centre X0 = Inr ([0, 0], xc)"
    and xc: "\<And>i j. elem xc i j = elem X0 i j - [0, 0] ! i"
    using centre_X0 by blast
  obtain eigval V where e: "eig_sym (ColumnCovariance xc) = (eigval, V)"
    by (cases "eig_sym (ColumnCovariance xc)")
  have es: "is_eig_sym (ColumnCovariance xc) (eigval, V)"
    using meets_contractD[OF k c] e by simp
  have d: "n_rows xc = 2" using centre_Inr(1)[OF c] by (simp add: X0_dims)
  have dims: "length eigval = n_rows X0" "n_rows V = n_rows X0" "n_cols V = n_rows X0"
    using es d by (simp_all add: is_eig_sym_def X0_dims)
  have cov: "elem (ColumnCovariance xc) 0 0 = 73" "elem (ColumnCovariance xc) 0 (Suc 0) = - 36"
    "elem (ColumnCovariance xc) (Suc 0) 0 = - 36" "elem (ColumnCovariance xc) (Suc 0) (Suc 0) = 52"
    by (simp_all add: ColumnCovariance_centre_same[OF c] X0_dims ColumnCovariance_X0)
  define v00 v01 v10 v11 where "v00 = elem V 0 0" and "v01 = elem V 0 (Suc 0)"
    and "v10 = elem V (Suc 0) 0" and "v11 = elem V (Suc 0) (Suc 0)"
  define l0 l1 where "l0 = eigval ! 0" and "l1 = eigval ! Suc 0"
  have orth: "v00 * v00 + v10 * v10 = 1" "v00 * v01 + v10 * v11 = 0" "v01 * v01 + v11 * v11 = 1"
    using es by (simp_all add: is_eig_sym_def d all_less_2 sum_2 v00_def v01_def v10_def v11_def)
  have eig: "73 * v00 - 36 * v10 = l0 * v00" "- 36 * v00 + 52 * v10 = l0 * v10"
    "73 * v01 - 36 * v11 = l1 * v01" "- 36 * v01 + 52 * v11 = l1 * v11"
    using es by (simp_all add: is_eig_sym_def d all_less_2 sum_2 cov
        v00_def v01_def v10_def v11_def l0_def l1_def)
  have pos: "0 < l0" "0 < l1"
    using eigenvalue_nonneg[OF es, of 0] eigenvalue_nonneg[OF es, of 1]
      eigenvalue_nonzero[OF c es full_rank_X0, of 0] eigenvalue_nonzero[OF c es full_rank_X0, of 1]
    by (simp_all add: d X0_dims l0_def l1_def)
  define s0 s1 where "s0 = sqrt l0" and "s1 = sqrt l1"
  have spos: "0 < s0" "0 < s1" using pos by (simp_all add: s0_def s1_def)
  let ?self = "self\<lparr>itemMean := [0, 0], eigenVectors := V,
                     eigenValues := map (\<lambda>v. v + epsilon self) eigval\<rparr>"
  from Transform_Inr[where eig_sym = eig_sym and self = self, OF c e dims] t
  have self': "self' = ?self"
    and od: "n_rows out = 2" "n_cols out = 5"
    and el: "\<And>i j. i < 2 \<Longrightarrow> elem out i j =
               (\<Sum>a<2. elem V a i * elem xc a j) / sqrt (eigval ! i + epsilon self)"
    by (auto simp: X0_dims)
  have out0: "elem out 0 j = (v00 * elem X0 0 j + v10 * elem X0 (Suc 0) j) / s0" for j
    using el[of 0 j] by (simp add: sum_2 xc eps s0_def l0_def v00_def v10_def)
  have out1: "elem out (Suc 0) j = (v01 * elem X0 0 j + v11 * elem X0 (Suc 0) j) / s1" for j
    using el[of 1 j] by (simp add: sum_2 xc eps s1_def l1_def v01_def v11_def)
  have ev: "eigenVectors self' = V" "itemMean self' = [0, 0]"
    "map sqrt (eigenValues self') = [s0, s1]"
  proof -
    have "\<exists>a b. eigval = [a, b]"
      using dims(1) by (auto simp: X0_dims length_Suc_conv numeral_2_eq_2)
    then show "map sqrt (eigenValues self') = [s0, s1]"
      unfolding self' by (auto simp: eps s0_def s1_def l0_def l1_def)
  qed (simp_all add: self')
  from inv obtain W where W: "inverse_of (mat_t V) = Inr W" and iw: "is_inverse (mat_t V) W"
    using invertsD[of inverse_of "mat_t (eigenVectors self')"] unfolding ev by blast
  define w00 w01 w10 w11 where "w00 = elem W 0 0" and "w01 = elem W 0 (Suc 0)"
    and "w10 = elem W (Suc 0) 0" and "w11 = elem W (Suc 0) (Suc 0)"
  have wd: "n_rows W = 2" "n_cols W = 2"
    using iw dims by (simp_all add: is_inverse_def mat_t_def X0_dims)
  have wv: "w00 * v00 + w01 * v01 = 1" "w00 * v10 + w01 * v11 = 0"
    "w10 * v00 + w11 * v01 = 0" "w10 * v10 + w11 * v11 = 1"
    using iw dims
    by (simp_all add: is_inverse_def mat_t_def X0_dims all_less_2 sum_2
        w00_def w01_def w10_def w11_def v00_def v01_def v10_def v11_def)
  have weq: "w00 = v00" "w01 = v01" "w10 = v10" "w11 = v11"
    using wv orth by algebra+
  have back0: "elem back 0 j = s0 * (v00 * elem out 0 j + v01 * elem out (Suc 0) j)" for j
    using b unfolding weq[symmetric]
    by (auto simp: InverseTransform_def ev W mat_times_def diagmat_def wd od
        each_col_plus_def sum_2 w00_def w01_def algebra_simps)
  have back1: "elem back (Suc 0) j = s1 * (v10 * elem out 0 j + v11 * elem out (Suc 0) j)" for j
    using b unfolding weq[symmetric]
    by (auto simp: InverseTransform_def ev W mat_times_def diagmat_def wd od
        each_col_plus_def sum_2 w10_def w11_def algebra_simps)
  have same: "elem back 0 0 = - 5" "elem back 0 (Suc 0) = 11"
    "elem back (Suc 0) 0 = 10" "elem back (Suc 0) (Suc 0) = - 2"
    using eq by (simp_all add: mat_eq_def X0_dims all_less_2 X0_elems)
  have E00: "s1 * (v00 * (v00 * - 5 + v10 * 10)) + s0 * (v01 * (v01 * - 5 + v11 * 10)) = - 5 * s1"
    using same(1) unfolding back0 out0 out1 X0_elems unscale_left[OF spos] .
  have E01: "s1 * (v00 * (v00 * 11 + v10 * - 2)) + s0 * (v01 * (v01 * 11 + v11 * - 2)) = 11 * s1"
    using same(2) unfolding back0 out0 out1 X0_elems unscale_left[OF spos] .
  have E10: "s1 * (v10 * (v00 * - 5 + v10 * 10)) + s0 * (v11 * (v01 * - 5 + v11 * 10)) = 10 * s0"
    using same(3) unfolding back1 out0 out1 X0_elems unscale_right[OF spos] .
  have E11: "s1 * (v10 * (v00 * 11 + v10 * - 2)) + s0 * (v11 * (v01 * 11 + v11 * - 2)) = - 2 * s0"
    using same(4) unfolding back1 out0 out1 X0_elems unscale_right[OF spos] .
  have vvt: "v00 * v00 + v01 * v01 = 1" "v00 * v10 + v01 * v11 = 0" "v10 * v10 + v11 * v11 = 1"
    using wv unfolding weq by (simp_all add: mult.commute)
  have F0: "(s0 - s1) * v01 * (v01 * - 5 + v11 * 10) = 0"
    and F1: "(s0 - s1) * v01 * (v01 * 11 + v11 * - 2) = 0"
    using E00 E01 vvt by algebra+
  have G0: "(s1 - s0) * v10 * (v00 * - 5 + v10 * 10) = 0"
    and G1: "(s1 - s0) * v10 * (v00 * 11 + v10 * - 2) = 0"
    using E10 E11 vvt by algebra+
  have F: "(s0 - s1) * v01 = 0"
  proof (rule ccontr)
    assume n: "(s0 - s1) * v01 \<noteq> 0"
    with F0 F1 have "v01 * - 5 + v11 * 10 = 0" "v01 * 11 + v11 * - 2 = 0" by simp_all
    then have "v01 = 0" by algebra
    with n show False by simp
  qed
  have G: "(s1 - s0) * v10 = 0"
  proof (rule ccontr)
    assume n: "(s1 - s0) * v10 \<noteq> 0"
    with G0 G1 have "v00 * - 5 + v10 * 10 = 0" "v00 * 11 + v10 * - 2 = 0" by simp_all
    then have "v10 = 0" by algebra
    with n show False by simp
  qed
  show False
  proof (cases "s0 = s1")
    case True
    then have "l0 = l1" using pos by (simp add: s0_def s1_def)
    with eig(2,4) have "- 36 * (v00 * v00 + v01 * v01) + 52 * (v00 * v10 + v01 * v11) =
                       l1 * (v00 * v10 + v01 * v11)"
      by algebra
    then show False using vvt by simp
  next
    case False
    with F G have "v01 = 0" "v10 = 0" by simp_all
    with eig(3) have "v11 = 0" by simp
    with \<open>v01 = 0\<close> orth(3) show False by simp
  qed
qed

lemma inverts_inv0: "inverts inv0 (mat_t V0)"
  by (simp add: inverts_def inv0_def is_inverse_def mat_t_def V0_def mat_of_rows_def
      All_less_Suc)

text \<open>
  C3: On the dataset \<open>X0\<close>, whose covariance matrix has full rank, with regularization
  parameter 0: whatever eigendecomposition and inverse the library returns within their
  contracts, \<^verbatim>\<open>Transform\<close> and then \<^verbatim>\<open>InverseTransform\<close> on its output return a matrix
  that is not the input.
\<close>

theorem round_trip_fails:
  assumes k: "meets_contract eig_sym X0" and eps: "epsilon self = 0"
    and inv: "case Transform eig_sym self X0 of
                Inl e \<Rightarrow> True
              | Inr (self', out) \<Rightarrow> inverts inverse_of (mat_t (eigenVectors self'))"
  shows "\<exists>self' out back.
           Transform eig_sym self X0 = Inr (self', out) \<and>
           InverseTransform inverse_of self' out = Inr back \<and> \<not> mat_eq back X0"
proof -
  obtain xc where c: "centre X0 = Inr ([0, 0], xc)"
    using centre_X0 by blast
  obtain eigval V where e: "eig_sym (ColumnCovariance xc) = (eigval, V)"
    by (cases "eig_sym (ColumnCovariance xc)")
  have es: "is_eig_sym (ColumnCovariance xc) (eigval, V)"
    using meets_contractD[OF k c] e by simp
  have d: "n_rows xc = 2" using centre_Inr(1)[OF c] by (simp add: X0_dims)
  have dims: "length eigval = n_rows X0" "n_rows V = n_rows X0" "n_cols V = n_rows X0"
    using es d by (simp_all add: is_eig_sym_def X0_dims)
  from Transform_Inr[where eig_sym = eig_sym and self = self, OF c e dims]
  obtain self' out where t: "Transform eig_sym self X0 = Inr (self', out)"
    and f: "eigenVectors self' = V" "length (itemMean self') = 2" "length (eigenValues self') = 2"
    and od: "n_rows out = 2"
    using dims(1) by (auto simp: X0_dims)
  from inv t have "inverts inverse_of (mat_t (eigenVectors self'))" by simp
  then obtain W where W: "inverse_of (mat_t V) = Inr W" and iw: "is_inverse (mat_t V) W"
    using invertsD[of inverse_of "mat_t (eigenVectors self')"] unfolding f by blast
  have wd: "n_rows W = 2" "n_cols W = 2"
    using iw dims by (simp_all add: is_inverse_def mat_t_def X0_dims)
  have "\<exists>back. InverseTransform inverse_of self' out = Inr back"
    by (simp add: InverseTransform_def f W mat_times_def diagmat_def wd od each_col_plus_def)
  then obtain bk where b: "InverseTransform inverse_of self' out = Inr bk" ..
  from inv t have i: "inverts inverse_of (mat_t (eigenVectors self'))" by simp
  have "\<not> mat_eq bk X0"
    by (rule round_trip_differs[OF k eps t i b])
  with t b show ?thesis by blast
qed

theorem round_trip_fails_witness:
  "meets_contract eig0 X0 \<and> epsilon (new_PcaWhitening 0) = 0 \<and> inverts inv0 (mat_t V0) \<and>
   (\<exists>self' out back.
      Transform eig0 (new_PcaWhitening 0) X0 = Inr (self', out) \<and>
      InverseTransform inv0 self' out = Inr back \<and> \<not> mat_eq back X0 \<and>
      elem back 0 0 = - 1 \<and> elem X0 0 0 = - 5)"
proof -
  have e: "epsilon (new_PcaWhitening 0) = 0" by (simp add: new_PcaWhitening_def)
  from round_trip_changes_input obtain s1 o1 b1 where
    1: "Transform eig0 (new_PcaWhitening 0) X0 = Inr (s1, o1)"
       "InverseTransform inv0 s1 o1 = Inr b1" "elem b1 0 0 = - 1" "elem X0 0 0 = - 5"
    by blast
  have v: "eigenVectors s1 = V0"
    using 1(1) by (auto simp: Transform_def eig0_def Let_def split: sum.splits prod.splits)
  have i: "case Transform eig0 (new_PcaWhitening 0) X0 of
                Inl e \<Rightarrow> True
              | Inr (self', out) \<Rightarrow> inverts inv0 (mat_t (eigenVectors self'))"
    using 1(1) v inverts_inv0 by simp
  from round_trip_fails[OF meets_contract_X0 e i] 1(1,2)
  have "\<not> mat_eq b1 X0" by simp
  with 1 e meets_contract_X0 inverts_inv0 show ?thesis by blast
qed

end
